theory Spec2Isabelle
  imports Main
begin

section \<open>Data of the shell\<close>

text \<open>
  The shell of \<^verbatim>\<open>src/shell.c\<close> keeps a table of jobs, a signal mask, what it has
  printed, its open file descriptors and the signals it has sent to process groups. The
  three functions of the file that work on them (\<^verbatim>\<open>eval\<close>, \<^verbatim>\<open>builtincmd\<close> and the
  handlers) are embedded below as functions on a record of that state.
\<close>

datatype job_state = FG | BG | ST

datatype signal = SIGCHLD | SIGINT | SIGTSTP | SIGCONT | SIGOTHER nat

datatype errno = ENOENT | EACCES | EOTHER

datatype parseline_return = PARSELINE_FG | PARSELINE_BG | PARSELINE_EMPTY | PARSELINE_ERROR

datatype builtin_state = BUILTIN_NONE | BUILTIN_QUIT | BUILTIN_JOBS | BUILTIN_BG | BUILTIN_FG

text \<open>
  Modelled from the spec: \<^verbatim>\<open>struct cmdline_tokens\<close>, \<^verbatim>\<open>parseline_return\<close> and the builtin
  identifiers are declared in \<^verbatim>\<open>tsh_helper.h\<close>, which is not among the sources. Section 6
  of the specification lists what a parsed line holds: the argument vector, the two
  optional redirection file names, the foreground or background flag and the builtin.
  The record has the fields \<^verbatim>\<open>shell.c\<close> reads; a \<^verbatim>\<open>NULL\<close> file name is \<open>None\<close>, and
  \<^verbatim>\<open>argc\<close> is the number of entries of \<^verbatim>\<open>argv\<close>.
\<close>

record cmdline_tokens =
  argv :: "string list"
  infile :: "string option"
  outfile :: "string option"
  builtin :: builtin_state

definition argc :: "cmdline_tokens \<Rightarrow> int" where
  "argc tok = int (length (argv tok))"

text \<open>
  Modelled from the spec: the record of a job and the job table of \<^verbatim>\<open>tsh_helper\<close>, after
  section 3 of the specification. \<open>nextjid\<close> is the next job id to hand out.
\<close>

record job =
  job_id :: int
  process_id :: int
  state :: job_state
  command_text :: string

record job_table =
  recs :: "job list"
  nextjid :: int
  capacity :: nat

record shell =
  jobs :: job_table
  mask :: "signal set"
  out :: "(int \<times> string) list"
  open_fds :: "int list"
  sent :: "(int \<times> signal) list"

text \<open>
  What the operating system answers: \<^verbatim>\<open>open\<close> for reading and for writing (an error
  number or a descriptor), the value \<^verbatim>\<open>fork\<close> returns in the process that is running
  (0 in the child), and whether \<^verbatim>\<open>execve\<close> of an argument vector succeeds.
\<close>

record os =
  open_rd :: "string \<Rightarrow> errno + int"
  open_wr :: "string \<Rightarrow> errno + int"
  fork_ret :: int
  execve_ok :: "string list \<Rightarrow> bool"

text \<open>
  How a call ends: it returns, the process exits with a status, the process image is
  replaced by a program, the process stays suspended in \<^verbatim>\<open>sigsuspend\<close> for ever, or
  it reads past the end of the argument vector (which the line parser never allows).
\<close>

datatype outcome =
    Return shell
  | Exit int shell
  | Exec "string list" shell
  | Suspended
  | Undefined

section \<open>Library functions: printing numbers, \<^verbatim>\<open>atoi\<close>, signal masks\<close>

text \<open>The decimal text of a number, as \<^verbatim>\<open>%d\<close> prints it.\<close>

fun dec_nat :: "nat \<Rightarrow> string" where
  "dec_nat n =
     (if n < 10 then [''0123456789'' ! n]
      else dec_nat (n div 10) @ [''0123456789'' ! (n mod 10)])"

declare dec_nat.simps [simp del]

definition dec :: "int \<Rightarrow> string" where
  "dec i = (if i < 0 then CHR ''-'' # dec_nat (nat (- i)) else dec_nat (nat i))"

definition isspace :: "char \<Rightarrow> bool" where
  "isspace c = (c \<in> set [CHR '' '', CHR 0x09, CHR 0x0A, CHR 0x0B, CHR 0x0C, CHR 0x0D])"

definition isdigit :: "char \<Rightarrow> bool" where
  "isdigit c = (c \<in> set ''0123456789'')"

definition digit_val :: "char \<Rightarrow> int" where
  "digit_val c = int (of_char c) - 48"

fun atoi_digits :: "int \<Rightarrow> string \<Rightarrow> int" where
  "atoi_digits acc [] = acc"
| "atoi_digits acc (c # cs) =
     (if isdigit c then atoi_digits (10 * acc + digit_val c) cs else acc)"

text \<open>
  The number that the start of a text spells: white space is skipped, one sign is read,
  then the decimal digits up to the first other character; no digits give 0.
\<close>

definition read_number :: "string \<Rightarrow> int" where
  "read_number s =
     (case dropWhile isspace s of
        [] \<Rightarrow> 0
      | c # cs \<Rightarrow>
          if c = CHR ''-'' then - atoi_digits 0 cs
          else if c = CHR ''+'' then atoi_digits 0 cs
          else atoi_digits 0 (c # cs))"

text \<open>
  \<^verbatim>\<open>strtol(s, NULL, 10)\<close> with a 64-bit \<^verbatim>\<open>long\<close>: a number outside the range of \<^verbatim>\<open>long\<close>
  is replaced by the nearest bound.
\<close>

definition strtol :: "string \<Rightarrow> int" where
  "strtol s = max (- 9223372036854775808) (min 9223372036854775807 (read_number s))"

text \<open>The conversion of a \<^verbatim>\<open>long\<close> to a 32-bit \<^verbatim>\<open>int\<close>: the value wraps around.\<close>

definition int_of_long :: "int \<Rightarrow> int" where
  "int_of_long x = (x + 2147483648) mod 4294967296 - 2147483648"

text \<open>
  \<^verbatim>\<open>atoi\<close> as the GNU C library computes it, \<^verbatim>\<open>(int) strtol(s, NULL, 10)\<close>: the text
  \<^verbatim>\<open>4294967297\<close> is read as 1, \<^verbatim>\<open>4294967296\<close> as 0 and \<^verbatim>\<open>2147483648\<close> as -2147483648.
  The result is stored in a \<^verbatim>\<open>pid_t\<close>, which has the same 32 bits.
\<close>

definition atoi :: "string \<Rightarrow> int" where
  "atoi s = int_of_long (strtol s)"

text \<open>
  Printing appends the text to what has been written to standard output (descriptor 1);
  \<open>out\<close> lists every write with its descriptor.
\<close>

definition sio_printf :: "string \<Rightarrow> shell \<Rightarrow> shell" where
  "sio_printf line s = s\<lparr>out := out s @ [(1, line)]\<rparr>"

text \<open>\<^verbatim>\<open>sigprocmask(SIG_BLOCK, set, &old)\<close> gives the old mask and the new state.\<close>

definition sigprocmask_block :: "signal set \<Rightarrow> shell \<Rightarrow> signal set \<times> shell" where
  "sigprocmask_block sigs s = (mask s, s\<lparr>mask := mask s \<union> sigs\<rparr>)"

definition sigprocmask_setmask :: "signal set \<Rightarrow> shell \<Rightarrow> shell" where
  "sigprocmask_setmask sigs s = s\<lparr>mask := sigs\<rparr>"

definition killpg :: "int \<Rightarrow> signal \<Rightarrow> shell \<Rightarrow> shell" where
  "killpg p sg s = s\<lparr>sent := sent s @ [(p, sg)]\<rparr>"

definition open_fd :: "int \<Rightarrow> shell \<Rightarrow> shell" where
  "open_fd fd s = s\<lparr>open_fds := open_fds s @ [fd]\<rparr>"

definition close_fd :: "int \<Rightarrow> shell \<Rightarrow> shell" where
  "close_fd fd s = s\<lparr>open_fds := removeAll fd (open_fds s)\<rparr>"

text \<open>
  The signal sets that \<^verbatim>\<open>eval\<close> and \<^verbatim>\<open>builtincmd\<close> build at their start: \<^verbatim>\<open>mask_all\<close> by
  \<^verbatim>\<open>sigfillset\<close>, \<^verbatim>\<open>mask_one\<close> and \<^verbatim>\<open>sigchld\<close> by adding the same three signals to the
  empty set. \<^verbatim>\<open>prev\<close> is made empty and never written again: the model writes \<open>{}\<close> for it.
  The handlers build the set of the three signals under the name \<^verbatim>\<open>mask_all\<close>; the model
  writes \<open>mask_one\<close> there.
\<close>

definition mask_all :: "signal set" where
  "mask_all = UNIV"

definition mask_one :: "signal set" where
  "mask_one = {SIGCHLD, SIGINT, SIGTSTP}"

definition sigchld :: "signal set" where
  "sigchld = {SIGCHLD, SIGINT, SIGTSTP}"

section \<open>The job table\<close>

text \<open>
  The job list of \<^verbatim>\<open>tsh_helper\<close> is not among the sources: \<^verbatim>\<open>shell.c\<close> only calls it.
  Each operation below is written from section 4.1 of the specification: a bounded
  collection of records in a stable order, looked up by job id and by process id. The
  capacity (\<^verbatim>\<open>MAXJOBS\<close>) is a field of the table, fixed when the table is made.
\<close>

text \<open>Modelled from the spec: \<^verbatim>\<open>init_job_list\<close>, the empty table; the first job id is 1.\<close>

definition init_job_list :: "nat \<Rightarrow> job_table" where
  "init_job_list cap = \<lparr>recs = [], nextjid = 1, capacity = cap\<rparr>"

text \<open>Modelled from the spec: the lookup by job id behind the operations that take one.\<close>

definition get_job :: "job_table \<Rightarrow> int \<Rightarrow> job option" where
  "get_job t j = find (\<lambda>r. job_id r = j) (recs t)"

text \<open>Modelled from the spec: \<^verbatim>\<open>job_exists\<close>, \<open>exists(job_id) \<rightarrow> bool\<close>.\<close>

definition job_exists :: "job_table \<Rightarrow> int \<Rightarrow> bool" where
  "job_exists t j = (get_job t j \<noteq> None)"

text \<open>
  Modelled from the spec: \<^verbatim>\<open>job_get_state\<close>, \<open>state_of(job_id) \<rightarrow> state\<close>. The specification
  says nothing about a job id that is not in the table; the model answers \<open>None\<close>.
\<close>

definition job_get_state :: "job_table \<Rightarrow> int \<Rightarrow> job_state option" where
  "job_get_state t j = map_option state (get_job t j)"

text \<open>
  Modelled from the spec: \<^verbatim>\<open>job_get_pid\<close>, \<open>process_id_of(job_id) \<rightarrow> pid\<close>; 0 for a job id that
  is not in the table (\<^verbatim>\<open>shell.c\<close> asks only for jobs it has found).
\<close>

definition job_get_pid :: "job_table \<Rightarrow> int \<Rightarrow> int" where
  "job_get_pid t j = (case get_job t j of None \<Rightarrow> 0 | Some r \<Rightarrow> process_id r)"

text \<open>
  Modelled from the spec: \<^verbatim>\<open>job_get_cmdline\<close>, the command text of a record; the empty
  text for a job id that is not in the table.
\<close>

definition job_get_cmdline :: "job_table \<Rightarrow> int \<Rightarrow> string" where
  "job_get_cmdline t j = (case get_job t j of None \<Rightarrow> [] | Some r \<Rightarrow> command_text r)"

text \<open>Modelled from the spec: \<^verbatim>\<open>job_from_pid\<close>, \<open>job_id_of(process_id) \<rightarrow> job_id or 0\<close>.\<close>

definition job_from_pid :: "job_table \<Rightarrow> int \<Rightarrow> int" where
  "job_from_pid t p =
     (case find (\<lambda>r. process_id r = p) (recs t) of None \<Rightarrow> 0 | Some r \<Rightarrow> job_id r)"

text \<open>
  Modelled from the spec: \<^verbatim>\<open>fg_job\<close>, \<open>foreground_job() \<rightarrow> job_id or 0\<close>, the Foreground job
  if one exists (the first one in the order of the table).
\<close>

definition fg_job :: "job_table \<Rightarrow> int" where
  "fg_job t = (case find (\<lambda>r. state r = FG) (recs t) of None \<Rightarrow> 0 | Some r \<Rightarrow> job_id r)"

text \<open>
  Modelled from the spec: \<^verbatim>\<open>job_set_state\<close>, \<open>set_state(job_id, state)\<close>; only the state of
  the record changes. For a job id that is not in the table the specification says
  nothing; the model changes nothing.
\<close>

definition job_set_state :: "job_table \<Rightarrow> int \<Rightarrow> job_state \<Rightarrow> job_table" where
  "job_set_state t j st =
     t\<lparr>recs := map (\<lambda>r. if job_id r = j then r\<lparr>state := st\<rparr> else r) (recs t)\<rparr>"

text \<open>
  Modelled from the spec: \<^verbatim>\<open>add_job\<close>, \<open>add(process_id, initial_state, command_text) \<rightarrow>
  job_id\<close>. It fails with 0 when the capacity is exhausted and otherwise always
  succeeds. Job ids are handed out in increasing order.
\<close>

definition add_job :: "job_table \<Rightarrow> int \<Rightarrow> job_state \<Rightarrow> string \<Rightarrow> int \<times> job_table" where
  "add_job t p st cmd =
     (if capacity t \<le> length (recs t) then (0, t)
      else (nextjid t,
            t\<lparr>recs := recs t @ [\<lparr>job_id = nextjid t, process_id = p, state = st,
                                   command_text = cmd\<rparr>],
              nextjid := nextjid t + 1\<rparr>))"

text \<open>
  Modelled from the spec: \<^verbatim>\<open>delete_job\<close>, \<open>remove(job_id) \<rightarrow> bool\<close>: failure and no change
  when the id is not in the table, else the record is deleted. Job ids start again
  at 1 once the table is empty.
\<close>

definition delete_job :: "job_table \<Rightarrow> int \<Rightarrow> bool \<times> job_table" where
  "delete_job t j =
     (if job_exists t j then
        (let rs = filter (\<lambda>r. job_id r \<noteq> j) (recs t)
         in (True, t\<lparr>recs := rs, nextjid := (if rs = [] then 1 else nextjid t)\<rparr>))
      else (False, t))"

text \<open>
  Modelled from the spec: \<^verbatim>\<open>list_jobs\<close>, \<open>list(sink)\<close>, which writes every record as
  \<^verbatim>\<open>[job_id] (process_id) state command_text\<close> to the descriptor, in the order of the table.
\<close>

definition state_name :: "job_state \<Rightarrow> string" where
  "state_name st = (case st of FG \<Rightarrow> ''Foreground'' | BG \<Rightarrow> ''Background'' | ST \<Rightarrow> ''Stopped'')"

definition job_line :: "job \<Rightarrow> string" where
  "job_line r =
     ''['' @ dec (job_id r) @ ''] ('' @ dec (process_id r) @ '') '' @ state_name (state r)
       @ '' '' @ command_text r @ ''\<newline>''"

definition list_jobs :: "int \<Rightarrow> shell \<Rightarrow> shell" where
  "list_jobs fd s = s\<lparr>out := out s @ map (\<lambda>r. (fd, job_line r)) (recs (jobs s))\<rparr>"

section \<open>The handlers\<close>

text \<open>
  What \<^verbatim>\<open>waitpid(-1, &status, WNOHANG | WUNTRACED)\<close> reports of a child: it exited
  with a code, a signal terminated it, or a signal stopped it.
\<close>

datatype wstatus = WExited int | WSignaled int | WStopped int

fun WIFSIGNALED :: "wstatus \<Rightarrow> bool" where
  "WIFSIGNALED (WSignaled n) = True"
| "WIFSIGNALED _ = False"

fun WIFSTOPPED :: "wstatus \<Rightarrow> bool" where
  "WIFSTOPPED (WStopped n) = True"
| "WIFSTOPPED _ = False"

fun WTERMSIG :: "wstatus \<Rightarrow> int" where
  "WTERMSIG (WSignaled n) = n"
| "WTERMSIG _ = 0"

fun WSTOPSIG :: "wstatus \<Rightarrow> int" where
  "WSTOPSIG (WStopped n) = n"
| "WSTOPSIG _ = 0"

definition terminated_notice :: "int \<Rightarrow> int \<Rightarrow> int \<Rightarrow> string" where
  "terminated_notice j p n =
     ''Job ['' @ dec j @ ''] ('' @ dec p @ '') terminated by signal '' @ dec n @ ''\<newline>''"

definition stopped_notice :: "int \<Rightarrow> int \<Rightarrow> int \<Rightarrow> string" where
  "stopped_notice j p n =
     ''Job ['' @ dec j @ ''] ('' @ dec p @ '') stopped by signal '' @ dec n @ ''\<newline>''"

text \<open>The body of the loop of \<^verbatim>\<open>sigchld_handler\<close> (lines 506 to 524), for one reaped child.\<close>

definition reap_one :: "int \<Rightarrow> wstatus \<Rightarrow> shell \<Rightarrow> shell" where
  "reap_one p st s =
     (let jid = job_from_pid (jobs s) p;
          s1 = (if WIFSIGNALED st \<and> jid \<noteq> 0
                then sio_printf (terminated_notice jid p (WTERMSIG st)) s else s);
          s2 = (if WIFSTOPPED st
                then (let s' = sio_printf (stopped_notice jid p (WSTOPSIG st)) s1
                      in s'\<lparr>jobs := job_set_state (jobs s') jid ST\<rparr>)
                else s1);
          s3 = (if \<not> WIFSTOPPED st then s2\<lparr>jobs := snd (delete_job (jobs s2) jid)\<rparr> else s2)
      in s3)"

text \<open>
  The loop \<^verbatim>\<open>while ((pid = waitpid(...)) > 0)\<close>: the list holds what the successive calls
  of \<^verbatim>\<open>waitpid\<close> report, and the loop ends at the end of the list or at a process id
  that is not positive.
\<close>

fun reap_loop :: "(int \<times> wstatus) list \<Rightarrow> shell \<Rightarrow> shell" where
  "reap_loop [] s = s"
| "reap_loop ((p, st) # rest) s = (if p > 0 then reap_loop rest (reap_one p st s) else s)"

definition sigchld_handler :: "(int \<times> wstatus) list \<Rightarrow> shell \<Rightarrow> shell" where
  "sigchld_handler reaped s =
     (let (prev_all, s1) = sigprocmask_block mask_one s;
          s2 = reap_loop reaped s1
      in sigprocmask_setmask prev_all s2)"

definition sigint_handler :: "shell \<Rightarrow> shell" where
  "sigint_handler s =
     (let (prev_all, s1) = sigprocmask_block mask_one s;
          jid = fg_job (jobs s1);
          s2 = (if jid \<noteq> 0 then killpg (job_get_pid (jobs s1) jid) SIGINT s1 else s1)
      in sigprocmask_setmask prev_all s2)"

definition sigtstp_handler :: "shell \<Rightarrow> shell" where
  "sigtstp_handler s =
     (let (prev_all, s1) = sigprocmask_block mask_one s;
          jid = fg_job (jobs s1);
          s2 = (if jid \<noteq> 0 then killpg (job_get_pid (jobs s1) jid) SIGTSTP s1 else s1)
      in sigprocmask_setmask prev_all s2)"

text \<open>
  A signal that reaches the shell: \<^verbatim>\<open>SIGCHLD\<close> with the children that \<^verbatim>\<open>waitpid\<close> then
  reports, \<^verbatim>\<open>SIGINT\<close>, or \<^verbatim>\<open>SIGTSTP\<close>.
\<close>

datatype event = Chld "(int \<times> wstatus) list" | Intr | Tstp

fun sig_of :: "event \<Rightarrow> signal" where
  "sig_of (Chld reaped) = SIGCHLD"
| "sig_of Intr = SIGINT"
| "sig_of Tstp = SIGTSTP"

fun handler :: "event \<Rightarrow> shell \<Rightarrow> shell" where
  "handler (Chld reaped) s = sigchld_handler reaped s"
| "handler Intr s = sigint_handler s"
| "handler Tstp s = sigtstp_handler s"

section \<open>Waiting for the foreground job\<close>

text \<open>
  \<^verbatim>\<open>sigsuspend(&m)\<close> installs the mask \<open>m\<close>, sleeps until a signal is delivered, lets its
  handler run, and puts the mask back.
\<close>

definition sigsuspend :: "signal set \<Rightarrow> event \<Rightarrow> shell \<Rightarrow> shell" where
  "sigsuspend m e s = (handler e (s\<lparr>mask := m\<rparr>))\<lparr>mask := mask s\<rparr>"

text \<open>
  The loop \<^verbatim>\<open>while ((fjid = fg_job()) > 0) { if (state == ST) break; sigsuspend(&m); }\<close>
  of lines 293 to 300, 446 to 453 and 468 to 474. The list holds the signals raised while
  the shell waits (one raised between the registration of the job and the loop counts
  as raised in the first wait); one that the mask \<open>m\<close> blocks does not wake the shell. At the end of
  the list no signal comes any more: the shell sleeps for ever, and the result is \<open>None\<close>.
  \<open>note\<close> is what the loop prints before \<^verbatim>\<open>break\<close> (only the loop of \<^verbatim>\<open>eval\<close> prints).
\<close>

fun wait_fg :: "(int \<times> string) list \<Rightarrow> signal set \<Rightarrow> event list \<Rightarrow> shell \<Rightarrow> shell option" where
  "wait_fg note m [] s =
     (if fg_job (jobs s) > 0 then
        (if job_get_state (jobs s) (fg_job (jobs s)) = Some ST
         then Some (s\<lparr>out := out s @ note\<rparr>) else None)
      else Some s)"
| "wait_fg note m (e # es) s =
     (if fg_job (jobs s) > 0 then
        (if job_get_state (jobs s) (fg_job (jobs s)) = Some ST
         then Some (s\<lparr>out := out s @ note\<rparr>)
         else if sig_of e \<in> m then wait_fg note m es s
         else wait_fg note m es (sigsuspend m e s))
      else Some s)"

text \<open>
  \<^verbatim>\<open>eval\<close> and \<^verbatim>\<open>builtincmd\<close> are split at their wait loop: the part before it either ends
  the call or enters the loop with a frame that says how the loop suspends and what
  follows it (the descriptors to close and the mask to install).
\<close>

record wait_frame =
  w_note :: "(int \<times> string) list"
  w_suspend :: "signal set"
  w_close :: "int list"
  w_restore :: "signal set"

datatype phase = Done outcome | Wait wait_frame shell

definition finish :: "wait_frame \<Rightarrow> shell \<Rightarrow> shell" where
  "finish k s = sigprocmask_setmask (w_restore k) (fold close_fd (w_close k) s)"

definition run_wait :: "wait_frame \<Rightarrow> event list \<Rightarrow> shell \<Rightarrow> outcome" where
  "run_wait k evs s =
     (case wait_fg (w_note k) (w_suspend k) evs s of
        None \<Rightarrow> Suspended
      | Some s' \<Rightarrow> Return (finish k s'))"

definition complete :: "event list \<Rightarrow> phase \<Rightarrow> outcome" where
  "complete evs ph = (case ph of Done r \<Rightarrow> r | Wait k s \<Rightarrow> run_wait k evs s)"

section \<open>The builtin commands\<close>

definition file_error :: "string \<Rightarrow> errno \<Rightarrow> string" where
  "file_error name e =
     (if e = ENOENT then name @ '': No such file or directory\<newline>''
      else name @ '': Permission denied\<newline>'')"

definition announce :: "int \<Rightarrow> int \<Rightarrow> string \<Rightarrow> string" where
  "announce j p cmd = ''['' @ dec j @ ''] ('' @ dec p @ '') '' @ cmd @ ''\<newline>''"

text \<open>Lines 379 to 385 and 424 to 430: the text \<^verbatim>\<open>num\<close> that is handed to \<^verbatim>\<open>atoi\<close>.\<close>

definition jobref_num :: "string \<Rightarrow> string" where
  "jobref_num a = (case a of [] \<Rightarrow> a | c # cs \<Rightarrow> if c \<noteq> CHR ''%'' then a else cs)"

text \<open>The \<^verbatim>\<open>jobs\<close> builtin, lines 349 to 371.\<close>

definition builtin_jobs :: "os \<Rightarrow> cmdline_tokens \<Rightarrow> shell \<Rightarrow> phase" where
  "builtin_jobs sys tok s =
     (let (prev_all, s1) = sigprocmask_block mask_all s in
      case outfile tok of
        Some f \<Rightarrow>
          (case open_wr sys f of
             Inl e \<Rightarrow> Done (Return (sigprocmask_setmask prev_all (sio_printf (file_error f e) s1)))
           | Inr fdout \<Rightarrow>
               Done (Return (sigprocmask_setmask prev_all
                       (close_fd fdout (list_jobs fdout (open_fd fdout s1))))))
      | None \<Rightarrow> Done (Return (sigprocmask_setmask prev_all (list_jobs 1 s1))))"

text \<open>The \<^verbatim>\<open>bg\<close> builtin, lines 373 to 415.\<close>

definition builtin_bg :: "cmdline_tokens \<Rightarrow> shell \<Rightarrow> phase" where
  "builtin_bg tok s =
     (if argc tok = 1
      then Done (Return (sio_printf ''bg command requires PID or %jobid argument\<newline>'' s))
      else
        (case drop 1 (argv tok) of
           [] \<Rightarrow> Done Undefined
         | a # _ \<Rightarrow>
             (let jid = atoi (jobref_num a) in
              if jid = 0
              then Done (Return (sio_printf ''bg: argument must be a PID or %jobid\<newline>'' s))
              else
                (let (prev_all, s1) = sigprocmask_block mask_all s in
                 if job_exists (jobs s1) jid then
                   (let pid = job_get_pid (jobs s1) jid;
                        cmd = job_get_cmdline (jobs s1) jid;
                        s2 = sio_printf (announce jid pid cmd) s1;
                        s3 = s2\<lparr>jobs := job_set_state (jobs s2) jid BG\<rparr>;
                        s4 = killpg pid SIGCONT s3
                    in Done (Return (sigprocmask_setmask prev_all s4)))
                 else
                   (let pid = jid;
                        jid' = job_from_pid (jobs s1) pid
                    in if jid' = 0
                       then Done (Return (sigprocmask_setmask prev_all
                                    (sio_printf (a @ '': No such job\<newline>'') s1)))
                       else
                         (let cmd = job_get_cmdline (jobs s1) jid';
                              s2 = sio_printf (announce jid' pid cmd) s1;
                              s3 = s2\<lparr>jobs := job_set_state (jobs s2) jid' BG\<rparr>;
                              s4 = killpg pid SIGCONT s3
                          in Done (Return (sigprocmask_setmask prev_all s4))))))))"

text \<open>
  The \<^verbatim>\<open>fg\<close> builtin, lines 417 to 477, up to its wait loops; both loops suspend with
  \<^verbatim>\<open>prev_all\<close> and are followed by line 476, which installs \<^verbatim>\<open>prev_all\<close>.
\<close>

definition builtin_fg :: "cmdline_tokens \<Rightarrow> shell \<Rightarrow> phase" where
  "builtin_fg tok s =
     (if argc tok = 1
      then Done (Return (sio_printf ''fg command requires PID or %jobid argument\<newline>'' s))
      else
        (case drop 1 (argv tok) of
           [] \<Rightarrow> Done Undefined
         | a # _ \<Rightarrow>
             (let jid = atoi (jobref_num a) in
              if jid = 0
              then Done (Return (sio_printf ''fg: argument must be a PID or %jobid\<newline>'' s))
              else
                (let (prev_all, s1) = sigprocmask_block mask_all s in
                 if job_exists (jobs s1) jid then
                   (let s2 = s1\<lparr>jobs := job_set_state (jobs s1) jid FG\<rparr>;
                        pid = job_get_pid (jobs s2) jid;
                        s3 = killpg pid SIGCONT s2;
                        s4 = sigprocmask_setmask prev_all s3;
                        (old, s5) = sigprocmask_block sigchld s4
                    in Wait \<lparr>w_note = [], w_suspend = prev_all, w_close = [],
                              w_restore = prev_all\<rparr> s5)
                 else
                   (let pid = jid;
                        jid' = job_from_pid (jobs s1) pid
                    in if jid' = 0
                       then Done (Return (sigprocmask_setmask prev_all
                                    (sio_printf (a @ '': No such job\<newline>'') s1)))
                       else
                         (let s2 = s1\<lparr>jobs := job_set_state (jobs s1) jid' FG\<rparr>;
                              s3 = killpg pid SIGCONT s2;
                              s4 = sigprocmask_setmask prev_all s3;
                              (old, s5) = sigprocmask_block sigchld s4
                          in Wait \<lparr>w_note = [], w_suspend = prev_all, w_close = [],
                                    w_restore = prev_all\<rparr> s5))))))"

text \<open>
  \<^verbatim>\<open>builtincmd\<close> up to a wait loop. Its four tests of \<^verbatim>\<open>token.builtin\<close> exclude each
  other, and no test is followed by code that another builtin runs. The argument
  \<^verbatim>\<open>parse_result\<close> is not read by the source.
\<close>

definition builtincmd_begin :: "os \<Rightarrow> parseline_return \<Rightarrow> cmdline_tokens \<Rightarrow> shell \<Rightarrow> phase" where
  "builtincmd_begin sys parse_result tok s =
     (case builtin tok of
        BUILTIN_QUIT \<Rightarrow> Done (Exit 0 s)
      | BUILTIN_JOBS \<Rightarrow> builtin_jobs sys tok s
      | BUILTIN_BG \<Rightarrow> builtin_bg tok s
      | BUILTIN_FG \<Rightarrow> builtin_fg tok s
      | BUILTIN_NONE \<Rightarrow> Done (Return s))"

definition builtincmd ::
  "os \<Rightarrow> event list \<Rightarrow> parseline_return \<Rightarrow> cmdline_tokens \<Rightarrow> shell \<Rightarrow> outcome" where
  "builtincmd sys evs parse_result tok s = complete evs (builtincmd_begin sys parse_result tok s)"

section \<open>Launching a program: \<^verbatim>\<open>eval\<close>\<close>

text \<open>Lines 222 to 234 and 235 to 248: a redirection target is opened, or the failure is printed.\<close>

definition open_infile :: "os \<Rightarrow> cmdline_tokens \<Rightarrow> shell \<Rightarrow> shell + int \<times> shell" where
  "open_infile sys tok s =
     (case infile tok of
        None \<Rightarrow> Inr (0, s)
      | Some f \<Rightarrow>
          (case open_rd sys f of
             Inl e \<Rightarrow> Inl (sio_printf (file_error f e) s)
           | Inr fdin \<Rightarrow> Inr (fdin, open_fd fdin s)))"

definition open_outfile :: "os \<Rightarrow> cmdline_tokens \<Rightarrow> shell \<Rightarrow> shell + int \<times> shell" where
  "open_outfile sys tok s =
     (case outfile tok of
        None \<Rightarrow> Inr (0, s)
      | Some f \<Rightarrow>
          (case open_wr sys f of
             Inl e \<Rightarrow> Inl (sio_printf (file_error f e) s)
           | Inr fdout \<Rightarrow> Inr (fdout, open_fd fdout s)))"

text \<open>
  Lines 252 to 272, run by the child. \<^verbatim>\<open>setpgid\<close> and \<^verbatim>\<open>dup2\<close> onto the descriptors 0
  and 1 change neither the set of open descriptors nor anything else of the state.
\<close>

definition child :: "os \<Rightarrow> cmdline_tokens \<Rightarrow> signal set \<Rightarrow> shell \<Rightarrow> outcome" where
  "child sys tok prev_all s =
     (let s1 = sigprocmask_setmask prev_all s in
      case argv tok of
        [] \<Rightarrow> Undefined
      | a0 # _ \<Rightarrow>
          if execve_ok sys (argv tok) then Exec (argv tok) s1
          else
            (case open_rd sys a0 of
               Inl e \<Rightarrow> Exit 0 (sio_printf (file_error a0 e) s1)
             | Inr fdin \<Rightarrow> Exit 0 (open_fd fdin s1)))"

text \<open>Lines 276 to 315, run by the parent, up to the wait loop.\<close>

definition parent ::
  "int \<Rightarrow> string \<Rightarrow> parseline_return \<Rightarrow> cmdline_tokens \<Rightarrow> signal set \<Rightarrow> int \<Rightarrow> int \<Rightarrow> shell \<Rightarrow> phase"
  where
  "parent pid cmdline parse_result tok prev_all fdin fdout s =
     (let (old, s1) = sigprocmask_block mask_all s in
      case parse_result of
        PARSELINE_BG \<Rightarrow>
          (let (jid, t) = add_job (jobs s1) pid BG cmdline;
               s2 = sigprocmask_setmask prev_all (s1\<lparr>jobs := t\<rparr>);
               (prev_all', s3) = sigprocmask_block mask_all s2;
               s4 = sio_printf (announce jid pid cmdline) s3
           in Done (Return (sigprocmask_setmask prev_all' s4)))
      | PARSELINE_FG \<Rightarrow>
          (let (jid, t) = add_job (jobs s1) pid FG cmdline;
               s2 = sigprocmask_setmask prev_all (s1\<lparr>jobs := t\<rparr>);
               (old', s3) = sigprocmask_block sigchld s2
           in Wait \<lparr>w_note = [(1, ''job is stopped'')], w_suspend = {},
                     w_close = (if infile tok \<noteq> None then [fdin] else [])
                               @ (if outfile tok \<noteq> None then [fdout] else []),
                     w_restore = {}\<rparr> s3)
      | _ \<Rightarrow> Done (Exit 0 (sio_printf ''not bg or fg\<newline>'' s1)))"

text \<open>Lines 221 to 315: the command is not a builtin.\<close>

definition launch :: "os \<Rightarrow> string \<Rightarrow> parseline_return \<Rightarrow> cmdline_tokens \<Rightarrow> shell \<Rightarrow> phase" where
  "launch sys cmdline parse_result tok s =
     (let (prev_all, s1) = sigprocmask_block mask_one s in
      case open_infile sys tok s1 of
        Inl s' \<Rightarrow> Done (Return (sigprocmask_setmask prev_all s'))
      | Inr (fdin, s2) \<Rightarrow>
          (case open_outfile sys tok s2 of
             Inl s' \<Rightarrow> Done (Return (sigprocmask_setmask prev_all s'))
           | Inr (fdout, s3) \<Rightarrow>
               if fork_ret sys = 0 then Done (child sys tok prev_all s3)
               else parent (fork_ret sys) cmdline parse_result tok prev_all fdin fdout s3))"

text \<open>
  \<^verbatim>\<open>eval\<close> up to a wait loop. The line parser is not among the sources: its result for
  the command line, \<^verbatim>\<open>parse_result\<close> and the tokens, is given.
\<close>

definition eval_begin :: "os \<Rightarrow> string \<Rightarrow> parseline_return \<Rightarrow> cmdline_tokens \<Rightarrow> shell \<Rightarrow> phase" where
  "eval_begin sys cmdline parse_result tok s =
     (if parse_result = PARSELINE_ERROR \<or> parse_result = PARSELINE_EMPTY then Done (Return s)
      else
        (case builtincmd_begin sys parse_result tok s of
           Wait k s1 \<Rightarrow> Wait k s1
         | Done r \<Rightarrow>
             (case r of
                Return s1 \<Rightarrow>
                  if builtin tok \<noteq> BUILTIN_NONE then Done (Return s1)
                  else launch sys cmdline parse_result tok s1
              | _ \<Rightarrow> Done r)))"

definition eval ::
  "os \<Rightarrow> event list \<Rightarrow> string \<Rightarrow> parseline_return \<Rightarrow> cmdline_tokens \<Rightarrow> shell \<Rightarrow> outcome" where
  "eval sys evs cmdline parse_result tok s = complete evs (eval_begin sys cmdline parse_result tok s)"

section \<open>Predicates of the statements\<close>


text \<open>A shell with no job, no blocked signal and the three standard descriptors.\<close>

definition fresh_shell :: shell where
  "fresh_shell =
     \<lparr>jobs = init_job_list 16, mask = {}, out = [], open_fds = [0, 1, 2], sent = []\<rparr>"

definition no_files :: os where
  "no_files =
     \<lparr>open_rd = (\<lambda>f. Inl ENOENT), open_wr = (\<lambda>f. Inl ENOENT), fork_ret = 100,
      execve_ok = (\<lambda>a. False)\<rparr>"

section \<open>States the shell goes through\<close>

text \<open>
  A signal raised while the shell is suspended with the mask \<open>m\<close>: a blocked signal
  leaves the state as it is, any other one runs its handler. \<open>trace\<close> lists the
  states of the shell as the signals of a list are raised one after the other.
\<close>

definition deliver :: "signal set \<Rightarrow> event \<Rightarrow> shell \<Rightarrow> shell" where
  "deliver m e s = (if sig_of e \<in> m then s else sigsuspend m e s)"

fun trace :: "signal set \<Rightarrow> event list \<Rightarrow> shell \<Rightarrow> shell list" where
  "trace m [] s = [s]"
| "trace m (e # es) s = s # trace m es (deliver m e s)"

text \<open>The job \<open>j\<close> has left the table, or its record says Stopped.\<close>

definition gone_or_stopped :: "int \<Rightarrow> shell \<Rightarrow> bool" where
  "gone_or_stopped j s =
     (job_get_state (jobs s) j = None \<or> job_get_state (jobs s) j = Some ST)"

text \<open>
  A table as \<^verbatim>\<open>add_job\<close> and \<^verbatim>\<open>delete_job\<close> build it: no job id twice, every job id
  positive and below the next one to hand out.
\<close>

definition wf_table :: "job_table \<Rightarrow> bool" where
  "wf_table t =
     (distinct (map job_id (recs t)) \<and> 0 < nextjid t
      \<and> list_all (\<lambda>r. 0 < job_id r \<and> job_id r < nextjid t) (recs t))"

definition count_fg :: "job_table \<Rightarrow> nat" where
  "count_fg t = length (filter (\<lambda>r. state r = FG) (recs t))"

text \<open>No job is in the foreground: the table as it is while the shell reads a command.\<close>

definition quiet :: "job_table \<Rightarrow> bool" where
  "quiet t = (wf_table t \<and> list_all (\<lambda>r. state r \<noteq> FG) (recs t))"

text \<open>
  The table while the shell waits for the job \<open>j\<close>: no other job is in the foreground,
  and \<open>j\<close> is not in the background.
\<close>

definition waited_for :: "int \<Rightarrow> job_table \<Rightarrow> bool" where
  "waited_for j t =
     (wf_table t
      \<and> list_all (\<lambda>r. (state r = FG \<longrightarrow> job_id r = j) \<and> (job_id r = j \<longrightarrow> state r \<noteq> BG))
           (recs t))"

text \<open>
  The states of the shell. It starts at the prompt with an empty table. At the prompt
  \<^verbatim>\<open>main\<close> calls \<^verbatim>\<open>eval\<close>, which returns to the prompt or enters a wait loop; a handler
  may run at the prompt and in the loop; the loop is left when its test
  allows, and the code after the loop leads back to the prompt. A call that ends the
  process, or that is the child's, leads to no further state of the shell.
\<close>

datatype mode = AtPrompt | InWait wait_frame

inductive reach :: "mode \<Rightarrow> shell \<Rightarrow> bool" where
  start: "reach AtPrompt \<lparr>jobs = init_job_list cap, mask = m, out = [], open_fds = fds, sent = []\<rparr>"
| command: "reach AtPrompt s \<Longrightarrow> eval_begin sys cmdline parse_result tok s = Done (Return s') \<Longrightarrow>
     reach AtPrompt s'"
| enter: "reach AtPrompt s \<Longrightarrow> eval_begin sys cmdline parse_result tok s = Wait k s' \<Longrightarrow>
     reach (InWait k) s'"
| signal: "reach md s \<Longrightarrow> reach md (handler e s)"
| leave: "reach (InWait k) s \<Longrightarrow> wait_fg (w_note k) (w_suspend k) [] s = Some s' \<Longrightarrow>
     reach AtPrompt (finish k s')"

section \<open>Job references as the builtins read them\<close>

text \<open>
  The job and the process group that \<^verbatim>\<open>bg\<close> and \<^verbatim>\<open>fg\<close> act on for the number \<open>n\<close>
  that \<^verbatim>\<open>atoi\<close> has read: the job with the id \<open>n\<close> if there is one, else the job whose
  process id is \<open>n\<close>, else none. This is the rule the statement about job references is
  compared with; the builtins themselves are \<open>builtin_bg\<close> and \<open>builtin_fg\<close> above.
\<close>

definition resolve_jobref :: "job_table \<Rightarrow> int \<Rightarrow> (int \<times> int) option" where
  "resolve_jobref t n =
     (if job_exists t n then Some (n, job_get_pid t n)
      else if job_from_pid t n = 0 then None
      else Some (job_from_pid t n, n))"

section \<open>Example states\<close>

definition one_stopped_job :: shell where
  "one_stopped_job =
     \<lparr>jobs = \<lparr>recs = [\<lparr>job_id = 1, process_id = 4242, state = ST,
                        command_text = ''/bin/sleep 60''\<rparr>],
              nextjid = 2, capacity = 16\<rparr>,
      mask = {}, out = [], open_fds = [0, 1, 2], sent = []\<rparr>"

definition small_pids :: shell where
  "small_pids =
     \<lparr>jobs = \<lparr>recs = [\<lparr>job_id = 1, process_id = 2, state = ST, command_text = ''/bin/a''\<rparr>,
                      \<lparr>job_id = 2, process_id = 7, state = ST, command_text = ''/bin/b''\<rparr>],
              nextjid = 3, capacity = 16\<rparr>,
      mask = {}, out = [], open_fds = [0, 1, 2], sent = []\<rparr>"

definition bg_tokens :: "string \<Rightarrow> cmdline_tokens" where
  "bg_tokens a = \<lparr>argv = [''bg'', a], infile = None, outfile = None, builtin = BUILTIN_BG\<rparr>"

definition fg_tokens :: "string \<Rightarrow> cmdline_tokens" where
  "fg_tokens a = \<lparr>argv = [''fg'', a], infile = None, outfile = None, builtin = BUILTIN_FG\<rparr>"

definition full_table :: shell where
  "full_table =
     \<lparr>jobs = \<lparr>recs = [\<lparr>job_id = 1, process_id = 100, state = BG,
                        command_text = ''/bin/sleep 60 &''\<rparr>],
              nextjid = 2, capacity = 1\<rparr>,
      mask = {}, out = [], open_fds = [0, 1, 2], sent = []\<rparr>"

definition plain_tokens :: "string list \<Rightarrow> cmdline_tokens" where
  "plain_tokens args = \<lparr>argv = args, infile = None, outfile = None, builtin = BUILTIN_NONE\<rparr>"

definition sleep_running :: shell where
  "sleep_running =
     \<lparr>jobs = \<lparr>recs = [\<lparr>job_id = 1, process_id = 100, state = FG,
                        command_text = ''/bin/sleep 5''\<rparr>],
              nextjid = 2, capacity = 16\<rparr>,
      mask = {SIGCHLD, SIGINT, SIGTSTP}, out = [], open_fds = [0, 1, 2], sent = []\<rparr>"

definition eval_frame :: wait_frame where
  "eval_frame = \<lparr>w_note = [(1, ''job is stopped'')], w_suspend = {}, w_close = [], w_restore = {}\<rparr>"

definition in_child :: os where
  "in_child =
     \<lparr>open_rd = (\<lambda>f. if f = ''./notes.txt'' then Inr 3 else Inl ENOENT),
      open_wr = (\<lambda>f. Inl EACCES), fork_ret = 0, execve_ok = (\<lambda>a. False)\<rparr>"

definition in_parent :: os where
  "in_parent =
     \<lparr>open_rd = (\<lambda>f. if f = ''in.txt'' then Inr 3 else Inl ENOENT),
      open_wr = (\<lambda>f. Inl ENOENT), fork_ret = 200, execve_ok = (\<lambda>a. True)\<rparr>"

section \<open>Facts about \<^verbatim>\<open>atoi\<close> and the argument vector\<close>

lemmas atoi_defs = atoi_def strtol_def int_of_long_def read_number_def



lemma atoi_examples:
  "atoi ''4294967297'' = 1" "atoi ''4294967296'' = 0" "atoi ''2147483648'' = - 2147483648"
  "atoi ''1abc'' = 1" "atoi ''99999999999999999999'' = - 1"
  by (simp_all add: atoi_defs isspace_def isdigit_def digit_val_def)

lemma second_argument:
  "argv tok = c # a # rest \<Longrightarrow> drop 1 (argv tok) = a # rest \<and> argc tok \<noteq> 1"
  by (simp add: argc_def)

section \<open>Facts about the job table\<close>

lemma find_SomeD: "find P xs = Some x \<Longrightarrow> x \<in> set xs \<and> P x"
  by (induction xs) (auto split: if_splits)

lemma get_job_SomeD: "get_job t j = Some r \<Longrightarrow> r \<in> set (recs t) \<and> job_id r = j"
  unfolding get_job_def by (drule find_SomeD) simp

lemma job_get_state_SomeD:
  "job_get_state t j = Some st \<Longrightarrow> \<exists>r \<in> set (recs t). job_id r = j \<and> state r = st"
  unfolding job_get_state_def using get_job_SomeD by fastforce

lemma find_job_id_distinct:
  "distinct (map job_id rs) \<Longrightarrow> r \<in> set rs \<Longrightarrow> find (\<lambda>x. job_id x = job_id r) rs = Some r"
proof (induction rs)
  case Nil
  then show ?case by simp
next
  case (Cons a rs)
  show ?case
  proof (cases "r = a")
    case True
    then show ?thesis by simp
  next
    case False
    with Cons.prems have "r \<in> set rs" by simp
    then have "job_id r \<in> job_id ` set rs" by blast
    with Cons.prems have "job_id a \<noteq> job_id r" by auto
    with Cons \<open>r \<in> set rs\<close> show ?thesis by simp
  qed
qed

lemma find_filter_other:
  "find (\<lambda>r. job_id r = i) (filter (\<lambda>r. job_id r \<noteq> j) rs) =
     (if i = j then None else find (\<lambda>r. job_id r = i) rs)"
  by (induction rs) auto

lemma get_job_delete:
  "get_job (snd (delete_job t j)) i = (if i = j then None else get_job t i)"
  by (auto simp: get_job_def delete_job_def job_exists_def Let_def find_filter_other)

lemma find_map_state:
  "find (\<lambda>r. job_id r = i) (map (\<lambda>r. if job_id r = j then r\<lparr>state := st\<rparr> else r) rs) =
     (if i = j then map_option (\<lambda>r. r\<lparr>state := st\<rparr>) (find (\<lambda>r. job_id r = i) rs)
      else find (\<lambda>r. job_id r = i) rs)"
  by (induction rs) auto

lemma get_job_set_state:
  "get_job (job_set_state t j st) i =
     (if i = j then map_option (\<lambda>r. r\<lparr>state := st\<rparr>) (get_job t j) else get_job t i)"
  by (simp add: get_job_def job_set_state_def find_map_state)

lemma job_from_pid_exists: "job_from_pid t p = j \<Longrightarrow> j \<noteq> 0 \<Longrightarrow> job_exists t j"
proof -
  assume a: "job_from_pid t p = j" "j \<noteq> 0"
  then obtain r where "find (\<lambda>r. process_id r = p) (recs t) = Some r" "job_id r = j"
    by (auto simp: job_from_pid_def split: option.splits)
  then have "r \<in> set (recs t)" "job_id r = j"
    by (auto simp: find_Some_iff)
  then have "find (\<lambda>r. job_id r = j) (recs t) \<noteq> None"
    by (auto simp: find_None_iff)
  then show ?thesis by (simp add: job_exists_def get_job_def)
qed

lemma map_job_id_set_state:
  "map job_id (map (\<lambda>r. if job_id r = i then r\<lparr>state := st\<rparr> else r) rs) = map job_id rs"
  by (induction rs) auto

lemma list_all_job_id_set_state:
  "list_all (\<lambda>r. 0 < job_id r \<and> job_id r < n)
       (map (\<lambda>r. if job_id r = i then r\<lparr>state := st\<rparr> else r) rs) =
     list_all (\<lambda>r. 0 < job_id r \<and> job_id r < n) rs"
  by (induction rs) auto

lemma wf_set_state: "wf_table t \<Longrightarrow> wf_table (job_set_state t i st)"
proof -
  assume w: "wf_table t"
  have "recs (job_set_state t i st) =
          map (\<lambda>r. if job_id r = i then r\<lparr>state := st\<rparr> else r) (recs t)"
       "nextjid (job_set_state t i st) = nextjid t"
    by (simp_all add: job_set_state_def)
  with w show ?thesis
    unfolding wf_table_def
    by (simp only: map_job_id_set_state list_all_job_id_set_state) 
qed

lemma wf_delete: "wf_table t \<Longrightarrow> wf_table (snd (delete_job t i))"
  by (auto simp: wf_table_def delete_job_def Let_def list_all_iff distinct_map_filter
      filter_empty_conv)

lemma wf_add: "wf_table t \<Longrightarrow> wf_table (snd (add_job t p st cmd))"
  by (auto simp: wf_table_def add_job_def list_all_iff)

section \<open>Facts about the handlers\<close>

lemma jobs_reap_one_mask: "jobs (reap_one p st (s\<lparr>mask := m\<rparr>)) = jobs (reap_one p st s)"
  by (simp add: reap_one_def Let_def sio_printf_def)

lemma reap_one_mask: "reap_one p st (s\<lparr>mask := m\<rparr>) = (reap_one p st s)\<lparr>mask := m\<rparr>"
  by (simp add: reap_one_def Let_def sio_printf_def)

lemma reap_loop_mask: "reap_loop rs (s\<lparr>mask := m\<rparr>) = (reap_loop rs s)\<lparr>mask := m\<rparr>"
  by (induction rs s rule: reap_loop.induct) (simp_all add: reap_one_mask)

lemma mask_reap_one: "mask (reap_one p st s) = mask s"
  by (simp add: reap_one_def Let_def sio_printf_def)

lemma mask_reap_loop: "mask (reap_loop rs s) = mask s"
  by (induction rs s rule: reap_loop.induct) (simp_all add: mask_reap_one)

lemma sigchld_handler_eq: "sigchld_handler rs s = reap_loop rs s"
proof -
  have "(reap_loop rs s)\<lparr>mask := mask s\<rparr> = reap_loop rs s"
    using mask_reap_loop[of rs s] by (metis shell.surjective shell.update_convs(2))
  then show ?thesis
    by (simp add: sigchld_handler_def sigprocmask_block_def sigprocmask_setmask_def reap_loop_mask)
qed

lemma handler_table:
  assumes set_st: "\<And>t i. P t \<Longrightarrow> P (job_set_state t i ST)"
    and del: "\<And>t i. P t \<Longrightarrow> P (snd (delete_job t i))"
  shows "P (jobs s) \<Longrightarrow> P (jobs (handler e s))"
proof -
  have one: "P (jobs (reap_one p st s))" if "P (jobs s)" for p st s
    using that by (cases st) (simp_all add: reap_one_def Let_def sio_printf_def set_st del)
  have loop: "P (jobs s) \<Longrightarrow> P (jobs (reap_loop rs s))" for rs s
    by (induction rs s rule: reap_loop.induct) (simp_all add: one)
  assume "P (jobs s)"
  then show ?thesis
    by (cases e)
      (simp_all add: sigchld_handler_def sigint_handler_def sigtstp_handler_def
        sigprocmask_block_def sigprocmask_setmask_def reap_loop_mask loop killpg_def Let_def)
qed

lemma deliver_table:
  assumes set_st: "\<And>t i. P t \<Longrightarrow> P (job_set_state t i ST)"
    and del: "\<And>t i. P t \<Longrightarrow> P (snd (delete_job t i))"
    and "P (jobs s)"
  shows "P (jobs (deliver m e s))"
proof -
  have "P (jobs (s\<lparr>mask := m\<rparr>))" using assms(3) by simp
  then have "P (jobs (handler e (s\<lparr>mask := m\<rparr>)))"
    using handler_table[where P = P and s = "s\<lparr>mask := m\<rparr>" and e = e] set_st del by blast
  then show ?thesis using assms(3) by (simp add: deliver_def sigsuspend_def)
qed

section \<open>The table while the shell waits and while it reads\<close>

lemma waited_fg_job:
  assumes "waited_for j t"
  shows "fg_job t = (if job_get_state t j = Some FG then j else 0)"
proof (cases "find (\<lambda>r. state r = FG) (recs t)")
  case None
  then have "\<forall>r\<in>set (recs t). state r \<noteq> FG" by (simp add: find_None_iff)
  then have "job_get_state t j \<noteq> Some FG"
    using job_get_state_SomeD by blast
  with None show ?thesis by (simp add: fg_job_def)
next
  case (Some r)
  then have r: "r \<in> set (recs t)" "state r = FG" using find_SomeD by fastforce+
  with assms have j: "job_id r = j" by (simp add: waited_for_def list_all_iff)
  from assms have "distinct (map job_id (recs t))" by (simp add: waited_for_def wf_table_def)
  with r have "find (\<lambda>x. job_id x = job_id r) (recs t) = Some r"
    by (intro find_job_id_distinct)
  with j r have "job_get_state t j = Some FG" by (simp add: job_get_state_def get_job_def)
  with Some j show ?thesis by (simp add: fg_job_def)
qed

lemma waited_pos: "waited_for j t \<Longrightarrow> job_get_state t j = Some FG \<Longrightarrow> 0 < j"
proof -
  assume w: "waited_for j t" and "job_get_state t j = Some FG"
  then obtain r where "r \<in> set (recs t)" "job_id r = j"
    using job_get_state_SomeD by blast
  with w show ?thesis by (auto simp: waited_for_def wf_table_def list_all_iff)
qed

lemma waited_not_bg: "waited_for j t \<Longrightarrow> job_get_state t j \<noteq> Some BG"
proof
  assume w: "waited_for j t" and "job_get_state t j = Some BG"
  then obtain r where "r \<in> set (recs t)" "job_id r = j" "state r = BG"
    using job_get_state_SomeD by blast
  with w show False by (auto simp: waited_for_def list_all_iff)
qed

lemma waited_cases:
  "waited_for j t \<Longrightarrow>
     job_get_state t j = Some FG \<or> job_get_state t j = None \<or> job_get_state t j = Some ST"
proof (cases "job_get_state t j")
  case None
  then show ?thesis by simp
next
  case (Some st)
  assume "waited_for j t"
  with Some show ?thesis using waited_not_bg[of j t] by (cases st) simp_all
qed

lemma waited_records_set_stopped:
  "list_all (\<lambda>r. (state r = FG \<longrightarrow> job_id r = j) \<and> (job_id r = j \<longrightarrow> state r \<noteq> BG)) rs \<Longrightarrow>
   list_all (\<lambda>r. (state r = FG \<longrightarrow> job_id r = j) \<and> (job_id r = j \<longrightarrow> state r \<noteq> BG))
     (map (\<lambda>r. if job_id r = i then r\<lparr>state := ST\<rparr> else r) rs)"
  by (induction rs) simp_all

lemma waited_set_stopped: "waited_for j t \<Longrightarrow> waited_for j (job_set_state t i ST)"
proof -
  assume w: "waited_for j t"
  have "recs (job_set_state t i ST) =
          map (\<lambda>r. if job_id r = i then r\<lparr>state := ST\<rparr> else r) (recs t)"
    by (simp add: job_set_state_def)
  with w wf_set_state[of t i ST] waited_records_set_stopped[of j "recs t" i]
  show ?thesis
    unfolding waited_for_def by simp
qed

lemma waited_delete: "waited_for j t \<Longrightarrow> waited_for j (snd (delete_job t i))"
  unfolding waited_for_def using wf_delete[of t i]
  by (auto simp: delete_job_def Let_def list_all_iff)

lemma waited_deliver: "waited_for j (jobs s) \<Longrightarrow> waited_for j (jobs (deliver m e s))"
  by (rule deliver_table[of "waited_for j"]) (simp_all add: waited_set_stopped waited_delete)

lemma waited_handler: "waited_for j (jobs s) \<Longrightarrow> waited_for j (jobs (handler e s))"
  by (rule handler_table[of "waited_for j"]) (simp_all add: waited_set_stopped waited_delete)

lemma wait_fg_step:
  "wait_fg note m (e # es) s =
     (if fg_job (jobs s) > 0 then
        (if job_get_state (jobs s) (fg_job (jobs s)) = Some ST
         then Some (s\<lparr>out := out s @ note\<rparr>)
         else wait_fg note m es (deliver m e s))
      else Some s)"
  by (simp add: deliver_def)

lemma wait_fg_first:
  "waited_for j (jobs s) \<Longrightarrow> wait_fg note m evs s = find (gone_or_stopped j) (trace m evs s)"
proof (induction evs arbitrary: s)
  case Nil
  show ?case
  proof (cases "job_get_state (jobs s) j = Some FG")
    case True
    then have "\<not> gone_or_stopped j s" by (simp add: gone_or_stopped_def)
    with True Nil waited_pos[of j "jobs s"] show ?thesis
      by (simp add: waited_fg_job)
  next
    case False
    with Nil waited_cases[of j "jobs s"] have "gone_or_stopped j s"
      by (auto simp: gone_or_stopped_def)
    with False Nil show ?thesis
      by (simp add: waited_fg_job)
  qed
next
  case (Cons e es)
  have ih: "wait_fg note m es (deliver m e s) = find (gone_or_stopped j) (trace m es (deliver m e s))"
    using Cons.prems by (intro Cons.IH waited_deliver)
  show ?case
  proof (cases "job_get_state (jobs s) j = Some FG")
    case True
    then have "\<not> gone_or_stopped j s" by (simp add: gone_or_stopped_def)
    with True Cons.prems waited_pos[of j "jobs s"] ih show ?thesis
      by (simp add: wait_fg_step waited_fg_job del: wait_fg.simps)
  next
    case False
    with Cons.prems waited_cases[of j "jobs s"] have "gone_or_stopped j s"
      by (auto simp: gone_or_stopped_def)
    with False Cons.prems show ?thesis
      by (simp add: wait_fg_step waited_fg_job del: wait_fg.simps)
  qed
qed

lemma no_fg_filter: "list_all (\<lambda>r. state r \<noteq> FG) rs \<Longrightarrow> filter (\<lambda>r. state r = FG) rs = []"
  by (induction rs) simp_all

lemma quiet_count: "quiet t \<Longrightarrow> count_fg t = 0"
  by (simp add: quiet_def count_fg_def no_fg_filter)

lemma fg_without_id:
  "list_all (\<lambda>r. state r = FG \<longrightarrow> job_id r = j) rs \<Longrightarrow> j \<notin> job_id ` set rs \<Longrightarrow>
   filter (\<lambda>r. state r = FG) rs = []"
  by (induction rs) auto

lemma fg_at_most_one:
  "distinct (map job_id rs) \<Longrightarrow> list_all (\<lambda>r. state r = FG \<longrightarrow> job_id r = j) rs \<Longrightarrow>
   length (filter (\<lambda>r. state r = FG) rs) \<le> 1"
proof (induction rs)
  case Nil
  then show ?case by simp
next
  case (Cons a rs)
  show ?case
  proof (cases "state a = FG")
    case True
    with Cons.prems have "j \<notin> job_id ` set rs" by auto
    with Cons.prems have "filter (\<lambda>r. state r = FG) rs = []"
      by (intro fg_without_id[of j]) simp_all
    with True show ?thesis by simp
  next
    case False
    with Cons show ?thesis by simp
  qed
qed

lemma waited_count: "waited_for j t \<Longrightarrow> count_fg t \<le> 1"
proof -
  assume "waited_for j t"
  then have "distinct (map job_id (recs t))"
    and "list_all (\<lambda>r. state r = FG \<longrightarrow> job_id r = j) (recs t)"
    by (simp_all add: waited_for_def wf_table_def list_all_iff)
  then show ?thesis unfolding count_fg_def by (rule fg_at_most_one)
qed

lemma waited_quiet: "waited_for j t \<Longrightarrow> gone_or_stopped j s \<Longrightarrow> jobs s = t \<Longrightarrow> quiet t"
proof -
  assume w: "waited_for j t" and g: "gone_or_stopped j s" and t: "jobs s = t"
  have "state r \<noteq> FG" if r: "r \<in> set (recs t)" for r
  proof
    assume f: "state r = FG"
    with w r have j: "job_id r = j" by (simp add: waited_for_def list_all_iff)
    from w have "distinct (map job_id (recs t))" by (simp add: waited_for_def wf_table_def)
    with r have "find (\<lambda>x. job_id x = job_id r) (recs t) = Some r"
      by (intro find_job_id_distinct)
    with j f have "job_get_state t j = Some FG" by (simp add: job_get_state_def get_job_def)
    with g t show False by (simp add: gone_or_stopped_def)
  qed
  with w show ?thesis by (simp add: quiet_def waited_for_def list_all_iff)
qed

lemma quiet_set_state:
  "quiet t \<Longrightarrow> st \<noteq> FG \<Longrightarrow> quiet (job_set_state t i st)"
proof -
  assume q: "quiet t" and st: "st \<noteq> FG"
  have "list_all (\<lambda>r. state r \<noteq> FG) rs \<Longrightarrow>
        list_all (\<lambda>r. state r \<noteq> FG) (map (\<lambda>r. if job_id r = i then r\<lparr>state := st\<rparr> else r) rs)" for rs
    using st by (induction rs) simp_all
  moreover from q have "list_all (\<lambda>r. state r \<noteq> FG) (recs t)"
    by (simp add: quiet_def)
  ultimately have "list_all (\<lambda>r. state r \<noteq> FG) (recs (job_set_state t i st))"
    unfolding job_set_state_def by fastforce
  with q wf_set_state[of t i st] show ?thesis
    unfolding quiet_def by blast
qed

lemma quiet_delete: "quiet t \<Longrightarrow> quiet (snd (delete_job t i))"
  unfolding quiet_def using wf_delete[of t i]
  by (auto simp: delete_job_def Let_def list_all_iff)

lemma quiet_add_bg: "quiet t \<Longrightarrow> quiet (snd (add_job t p BG cmd))"
  unfolding quiet_def using wf_add[of t p BG cmd]
  by (auto simp: add_job_def list_all_iff)

lemma waited_add_fg: "quiet t \<Longrightarrow> waited_for (nextjid t) (snd (add_job t p FG cmd))"
  unfolding quiet_def waited_for_def using wf_add[of t p FG cmd]
  by (auto simp: add_job_def list_all_iff wf_table_def)

lemma waited_set_fg: "quiet t \<Longrightarrow> waited_for i (job_set_state t i FG)"
proof -
  assume q: "quiet t"
  have "list_all (\<lambda>r. state r \<noteq> FG) rs \<Longrightarrow>
        list_all (\<lambda>r. (state r = FG \<longrightarrow> job_id r = i) \<and> (job_id r = i \<longrightarrow> state r \<noteq> BG))
          (map (\<lambda>r. if job_id r = i then r\<lparr>state := FG\<rparr> else r) rs)" for rs
    by (induction rs) simp_all
  moreover from q have "list_all (\<lambda>r. state r \<noteq> FG) (recs t)"
    by (simp add: quiet_def)
  ultimately have
    "list_all (\<lambda>r. (state r = FG \<longrightarrow> job_id r = i) \<and> (job_id r = i \<longrightarrow> state r \<noteq> BG))
       (recs (job_set_state t i FG))"
    unfolding job_set_state_def by fastforce
  with q wf_set_state[of t i FG] show ?thesis
    unfolding quiet_def waited_for_def by blast
qed

lemma waited_set_fg_ex: "quiet t \<Longrightarrow> \<exists>j. waited_for j (job_set_state t i FG)"
  using waited_set_fg by blast

lemma quiet_handler: "quiet (jobs s) \<Longrightarrow> quiet (jobs (handler e s))"
  by (rule handler_table[of quiet]) (simp_all add: quiet_set_state quiet_delete)

lemma quiet_init: "quiet (init_job_list cap)"
  by (simp add: quiet_def wf_table_def init_job_list_def)

lemma wait_over:
  assumes "waited_for j (jobs s)" and "wait_fg nt m [] s = Some s'"
  shows "quiet (jobs s')"
proof -
  from assms have "find (gone_or_stopped j) (trace m [] s) = Some s'"
    using wait_fg_first[of j s nt m "[]"] by simp
  then have "gone_or_stopped j s" "s' = s"
    by (auto split: if_splits)
  with assms(1) show ?thesis using waited_quiet by blast
qed

section \<open>What \<^verbatim>\<open>eval\<close> does to the table\<close>

lemma builtin_bg_quiet:
  assumes "quiet (jobs s)"
  shows "builtin_bg tok s = Done (Return s') \<Longrightarrow> quiet (jobs s')"
    and "builtin_bg tok s \<noteq> Wait k s'"
  using assms
  by (auto simp: builtin_bg_def Let_def sigprocmask_block_def sigprocmask_setmask_def
      sio_printf_def killpg_def quiet_set_state split: if_splits list.splits)

lemma builtin_fg_quiet:
  assumes "quiet (jobs s)"
  shows "builtin_fg tok s = Done (Return s') \<Longrightarrow> quiet (jobs s')"
    and "builtin_fg tok s = Wait k s' \<Longrightarrow> \<exists>j. waited_for j (jobs s')"
  using assms
  by (auto simp: builtin_fg_def Let_def sigprocmask_block_def sigprocmask_setmask_def
      sio_printf_def killpg_def waited_set_fg_ex split: if_splits list.splits)

lemma builtin_jobs_quiet:
  assumes "quiet (jobs s)"
  shows "builtin_jobs sys tok s = Done (Return s') \<Longrightarrow> quiet (jobs s')"
    and "builtin_jobs sys tok s \<noteq> Wait k s'"
  using assms
  by (auto simp: builtin_jobs_def Let_def sigprocmask_block_def sigprocmask_setmask_def
      sio_printf_def list_jobs_def open_fd_def close_fd_def split: option.splits sum.splits)

lemma jobs_open_infile:
  "open_infile sys tok s = Inl s' \<Longrightarrow> jobs s' = jobs s"
  "open_infile sys tok s = Inr (fd, s') \<Longrightarrow> jobs s' = jobs s"
  by (auto simp: open_infile_def sio_printf_def open_fd_def split: option.splits sum.splits)

lemma jobs_open_outfile:
  "open_outfile sys tok s = Inl s' \<Longrightarrow> jobs s' = jobs s"
  "open_outfile sys tok s = Inr (fd, s') \<Longrightarrow> jobs s' = jobs s"
  by (auto simp: open_outfile_def sio_printf_def open_fd_def split: option.splits sum.splits)

lemma child_no_return: "child sys tok m s \<noteq> Return s'"
  by (auto simp: child_def Let_def split: list.splits sum.splits)

lemma parent_quiet:
  assumes "quiet (jobs s)"
  shows "parent pid cmdline parse_result tok m fdin fdout s = Done (Return s') \<Longrightarrow> quiet (jobs s')"
    and "parent pid cmdline parse_result tok m fdin fdout s = Wait k s' \<Longrightarrow>
           \<exists>j. waited_for j (jobs s')"
  using assms quiet_add_bg[of "jobs s" pid cmdline] waited_add_fg[of "jobs s" pid cmdline]
  by (auto simp: parent_def Let_def sigprocmask_block_def sigprocmask_setmask_def
      sio_printf_def split_def split: parseline_return.splits)

lemma launch_quiet:
  assumes "quiet (jobs s)"
  shows "launch sys cmdline parse_result tok s = Done (Return s') \<Longrightarrow> quiet (jobs s')"
    and "launch sys cmdline parse_result tok s = Wait k s' \<Longrightarrow> \<exists>j. waited_for j (jobs s')"
proof -
  let ?s1 = "s\<lparr>mask := mask s \<union> mask_one\<rparr>"
  have q1: "quiet (jobs ?s1)" using assms by simp
  show "quiet (jobs s')" if r: "launch sys cmdline parse_result tok s = Done (Return s')"
  proof (cases "open_infile sys tok ?s1")
    case (Inl a)
    with r jobs_open_infile(1)[OF Inl] q1 show ?thesis
      by (auto simp: launch_def sigprocmask_block_def sigprocmask_setmask_def)
  next
    case (Inr b)
    obtain fdin s2 where b: "b = (fdin, s2)" by (cases b)
    with Inr jobs_open_infile(2) q1 have q2: "quiet (jobs s2)" by fastforce
    show ?thesis
    proof (cases "open_outfile sys tok s2")
      case (Inl a)
      with r Inr b jobs_open_outfile(1)[OF Inl] q2 show ?thesis
        by (auto simp: launch_def sigprocmask_block_def sigprocmask_setmask_def)
    next
      case (Inr c)
      obtain fdout s3 where c: "c = (fdout, s3)" by (cases c)
      with Inr jobs_open_outfile(2) q2 have q3: "quiet (jobs s3)" by fastforce
      from r \<open>open_infile sys tok ?s1 = Inr b\<close> b Inr c
      have "parent (fork_ret sys) cmdline parse_result tok (mask s) fdin fdout s3 = Done (Return s')"
        by (auto simp: launch_def sigprocmask_block_def child_no_return split: if_splits)
      with q3 show ?thesis by (rule parent_quiet(1))
    qed
  qed
  show "\<exists>j. waited_for j (jobs s')" if r: "launch sys cmdline parse_result tok s = Wait k s'"
  proof (cases "open_infile sys tok ?s1")
    case (Inl a)
    with r show ?thesis
      by (auto simp: launch_def sigprocmask_block_def)
  next
    case (Inr b)
    obtain fdin s2 where b: "b = (fdin, s2)" by (cases b)
    with Inr jobs_open_infile(2) q1 have q2: "quiet (jobs s2)" by fastforce
    show ?thesis
    proof (cases "open_outfile sys tok s2")
      case (Inl a)
      with r Inr b show ?thesis
        by (auto simp: launch_def sigprocmask_block_def)
    next
      case (Inr c)
      obtain fdout s3 where c: "c = (fdout, s3)" by (cases c)
      with Inr jobs_open_outfile(2) q2 have q3: "quiet (jobs s3)" by fastforce
      from r \<open>open_infile sys tok ?s1 = Inr b\<close> b Inr c
      have "parent (fork_ret sys) cmdline parse_result tok (mask s) fdin fdout s3 = Wait k s'"
        by (auto simp: launch_def sigprocmask_block_def split: if_splits)
      with q3 show ?thesis by (rule parent_quiet(2))
    qed
  qed
qed

lemma builtincmd_begin_quiet:
  assumes "quiet (jobs s)"
  shows "builtincmd_begin sys parse_result tok s = Done (Return s') \<Longrightarrow> quiet (jobs s')"
    and "builtincmd_begin sys parse_result tok s = Wait k s' \<Longrightarrow> \<exists>j. waited_for j (jobs s')"
proof -
  show "quiet (jobs s')" if r: "builtincmd_begin sys parse_result tok s = Done (Return s')"
  proof (cases "builtin tok")
    case BUILTIN_NONE
    with r assms show ?thesis by (simp add: builtincmd_begin_def)
  next
    case BUILTIN_QUIT
    with r show ?thesis by (simp add: builtincmd_begin_def)
  next
    case BUILTIN_JOBS
    with r have "builtin_jobs sys tok s = Done (Return s')" by (simp add: builtincmd_begin_def)
    with assms show ?thesis by (rule builtin_jobs_quiet(1))
  next
    case BUILTIN_BG
    with r have "builtin_bg tok s = Done (Return s')" by (simp add: builtincmd_begin_def)
    with assms show ?thesis by (rule builtin_bg_quiet(1))
  next
    case BUILTIN_FG
    with r have "builtin_fg tok s = Done (Return s')" by (simp add: builtincmd_begin_def)
    with assms show ?thesis by (rule builtin_fg_quiet(1))
  qed
  show "\<exists>j. waited_for j (jobs s')" if r: "builtincmd_begin sys parse_result tok s = Wait k s'"
  proof (cases "builtin tok")
    case BUILTIN_NONE
    with r show ?thesis by (simp add: builtincmd_begin_def)
  next
    case BUILTIN_QUIT
    with r show ?thesis by (simp add: builtincmd_begin_def)
  next
    case BUILTIN_JOBS
    with r have "builtin_jobs sys tok s = Wait k s'" by (simp add: builtincmd_begin_def)
    with assms show ?thesis using builtin_jobs_quiet(2) by blast
  next
    case BUILTIN_BG
    with r have "builtin_bg tok s = Wait k s'" by (simp add: builtincmd_begin_def)
    with assms show ?thesis using builtin_bg_quiet(2) by blast
  next
    case BUILTIN_FG
    with r have "builtin_fg tok s = Wait k s'" by (simp add: builtincmd_begin_def)
    with assms show ?thesis by (rule builtin_fg_quiet(2))
  qed
qed

lemma eval_begin_quiet:
  assumes "quiet (jobs s)"
  shows "eval_begin sys cmdline parse_result tok s = Done (Return s') \<Longrightarrow> quiet (jobs s')"
    and "eval_begin sys cmdline parse_result tok s = Wait k s' \<Longrightarrow> \<exists>j. waited_for j (jobs s')"
proof -
  show "quiet (jobs s')" if r: "eval_begin sys cmdline parse_result tok s = Done (Return s')"
  proof (cases "builtincmd_begin sys parse_result tok s")
    case (Wait k1 s1)
    with r assms show ?thesis by (auto simp: eval_begin_def split: if_splits)
  next
    case (Done o1)
    show ?thesis
    proof (cases o1)
      case (Return s1)
      with Done assms have "quiet (jobs s1)" using builtincmd_begin_quiet(1) by blast
      with r Done Return assms launch_quiet(1)[of s1 sys cmdline parse_result tok s'] show ?thesis
        by (auto simp: eval_begin_def split: if_splits)
    qed (use r Done assms in \<open>auto simp: eval_begin_def split: if_splits\<close>)
  qed
  show "\<exists>j. waited_for j (jobs s')" if r: "eval_begin sys cmdline parse_result tok s = Wait k s'"
  proof (cases "builtincmd_begin sys parse_result tok s")
    case (Wait k1 s1)
    with r have "k1 = k" "s1 = s'" by (auto simp: eval_begin_def split: if_splits)
    with Wait assms show ?thesis using builtincmd_begin_quiet(2) by blast
  next
    case (Done o1)
    show ?thesis
    proof (cases o1)
      case (Return s1)
      with Done assms have "quiet (jobs s1)" using builtincmd_begin_quiet(1) by blast
      with r Done Return launch_quiet(2)[of s1 sys cmdline parse_result tok k s'] show ?thesis
        by (auto simp: eval_begin_def split: if_splits)
    qed (use r Done in \<open>auto simp: eval_begin_def split: if_splits\<close>)
  qed
qed

lemma jobs_close_fds: "jobs (fold close_fd fds s) = jobs s"
  by (induction fds arbitrary: s) (simp_all add: close_fd_def)

lemma jobs_finish: "jobs (finish k s) = jobs s"
  by (simp add: finish_def sigprocmask_setmask_def jobs_close_fds)

lemma reach_invariant:
  "reach md s \<Longrightarrow>
     (case md of AtPrompt \<Rightarrow> quiet (jobs s) | InWait k \<Rightarrow> \<exists>j. waited_for j (jobs s))"
proof (induction rule: reach.induct)
  case (start cap m fds)
  show ?case by (simp add: quiet_init)
next
  case (command s sys cmdline parse_result tok s')
  then show ?case using eval_begin_quiet(1) by fastforce
next
  case (enter s sys cmdline parse_result tok k s')
  then show ?case using eval_begin_quiet(2) by fastforce
next
  case (signal md s e)
  show ?case
  proof (cases md)
    case AtPrompt
    with signal.IH show ?thesis by (simp add: quiet_handler)
  next
    case (InWait k)
    with signal.IH show ?thesis by (auto intro: waited_handler)
  qed
next
  case (leave k s s')
  then obtain j where "waited_for j (jobs s)" by auto
  then have "quiet (jobs s')" using leave.hyps(2) by (rule wait_over)
  then show ?case by (simp add: jobs_finish)
qed

lemma open_infile_ok:
  "\<forall>f. infile tok = Some f \<longrightarrow> (\<exists>fd. open_rd sys f = Inr fd) \<Longrightarrow>
   \<exists>fd s'. open_infile sys tok s = Inr (fd, s') \<and> mask s' = mask s"
  by (cases "infile tok") (auto simp: open_infile_def open_fd_def)

lemma open_outfile_ok:
  "\<forall>f. outfile tok = Some f \<longrightarrow> (\<exists>fd. open_wr sys f = Inr fd) \<Longrightarrow>
   \<exists>fd s'. open_outfile sys tok s = Inr (fd, s') \<and> mask s' = mask s"
  by (cases "outfile tok") (auto simp: open_outfile_def open_fd_def)

lemma child_exec_failure:
  "argv tok \<noteq> [] \<Longrightarrow> \<not> execve_ok sys (argv tok) \<Longrightarrow> \<exists>s'. child sys tok m s = Exit 0 s'"
  by (cases "argv tok"; cases "open_rd sys (hd (argv tok))") (auto simp: child_def Let_def)

lemma eval_child:
  assumes "parse_result = PARSELINE_FG \<or> parse_result = PARSELINE_BG"
    and "builtin tok = BUILTIN_NONE"
    and "fork_ret sys = 0"
    and "\<forall>f. infile tok = Some f \<longrightarrow> (\<exists>fd. open_rd sys f = Inr fd)"
    and "\<forall>f. outfile tok = Some f \<longrightarrow> (\<exists>fd. open_wr sys f = Inr fd)"
  shows "\<exists>s'. eval sys evs cmdline parse_result tok s = child sys tok (mask s) s'"
proof -
  obtain fdin s2 where i: "open_infile sys tok (s\<lparr>mask := mask s \<union> mask_one\<rparr>) = Inr (fdin, s2)"
    using open_infile_ok[OF assms(4)] by blast
  obtain fdout s3 where o: "open_outfile sys tok s2 = Inr (fdout, s3)"
    using open_outfile_ok[OF assms(5)] by blast
  have "eval sys evs cmdline parse_result tok s = child sys tok (mask s) s3"
    using assms(1,2,3) i o
    by (auto simp: eval_def eval_begin_def builtincmd_begin_def launch_def complete_def
        sigprocmask_block_def)
  then show ?thesis by blast
qed

lemmas eval_defs = eval_def eval_begin_def builtincmd_def builtincmd_begin_def builtin_bg_def
  builtin_fg_def builtin_jobs_def launch_def parent_def child_def
  open_infile_def open_outfile_def complete_def run_wait_def finish_def
  sigprocmask_block_def sigprocmask_setmask_def sio_printf_def open_fd_def close_fd_def
  killpg_def file_error_def mask_one_def sigchld_def mask_all_def argc_def jobref_num_def announce_def

lemmas table_defs = init_job_list_def add_job_def delete_job_def job_exists_def get_job_def
  job_get_state_def job_get_pid_def job_get_cmdline_def job_from_pid_def fg_job_def
  job_set_state_def

lemmas handler_defs = sigsuspend_def deliver_def sigchld_handler_def sigint_handler_def
  sigtstp_handler_def reap_one_def terminated_notice_def stopped_notice_def

section \<open>Job references\<close>

lemma find_pid_distinct:
  "distinct (map process_id rs) \<Longrightarrow> r \<in> set rs \<Longrightarrow>
   find (\<lambda>x. process_id x = process_id r) rs = Some r"
proof (induction rs)
  case Nil
  then show ?case by simp
next
  case (Cons a rs)
  show ?case
  proof (cases "r = a")
    case True
    then show ?thesis by simp
  next
    case False
    with Cons.prems have "r \<in> set rs" by simp
    then have "process_id r \<in> process_id ` set rs" by blast
    with Cons.prems have "process_id a \<noteq> process_id r" by auto
    with Cons \<open>r \<in> set rs\<close> show ?thesis by simp
  qed
qed

lemma job_from_pid_of_job:
  assumes "distinct (map process_id (recs t))" and "job_exists t j"
  shows "job_from_pid t (job_get_pid t j) = j"
proof -
  from assms(2) obtain r where r: "get_job t j = Some r"
    by (auto simp: job_exists_def)
  then have "r \<in> set (recs t)" "job_id r = j" using get_job_SomeD by blast+
  with assms(1) have "find (\<lambda>x. process_id x = process_id r) (recs t) = Some r"
    by (intro find_pid_distinct)
  with r \<open>job_id r = j\<close> show ?thesis
    by (simp add: job_from_pid_def job_get_pid_def)
qed

lemma job_get_pid_set_state: "job_get_pid (job_set_state t i st) j = job_get_pid t j"
  by (cases "get_job t j") (auto simp: job_get_pid_def get_job_set_state)

lemma resolved_bg:
  assumes "builtin tok = BUILTIN_BG" and "argv tok = c # a # rest"
    and "atoi (jobref_num a) = n" and "n \<noteq> 0"
    and "resolve_jobref (jobs s) n = Some (j, p)"
  shows "builtincmd sys evs parse_result tok s =
           Return (s\<lparr>out := out s @ [(1, announce j p (job_get_cmdline (jobs s) j))],
                     jobs := job_set_state (jobs s) j BG,
                     sent := sent s @ [(p, SIGCONT)]\<rparr>)"
  using assms(1,3,4,5) second_argument[OF assms(2)]
  by (auto simp: builtincmd_def builtincmd_begin_def builtin_bg_def complete_def Let_def
      sigprocmask_block_def sigprocmask_setmask_def sio_printf_def killpg_def resolve_jobref_def
      split: if_splits)

lemma resolved_fg:
  assumes "builtin tok = BUILTIN_FG" and "argv tok = c # a # rest"
    and "atoi (jobref_num a) = n" and "n \<noteq> 0"
    and "resolve_jobref (jobs s) n = Some (j, p)"
  shows "builtincmd sys evs parse_result tok s =
           run_wait \<lparr>w_note = [], w_suspend = mask s, w_close = [], w_restore = mask s\<rparr> evs
             (s\<lparr>jobs := job_set_state (jobs s) j FG,
                sent := sent s @ [(p, SIGCONT)],
                mask := mask s \<union> sigchld\<rparr>)"
  using assms(1,3,4,5) second_argument[OF assms(2)]
  by (auto simp: builtincmd_def builtincmd_begin_def builtin_fg_def complete_def Let_def
      sigprocmask_block_def sigprocmask_setmask_def sio_printf_def killpg_def resolve_jobref_def
      job_get_pid_set_state split: if_splits)

lemma resolved_exists:
  assumes "resolve_jobref t n = Some (j, p)"
  shows "job_exists t j"
proof (cases "job_exists t n")
  case True
  with assms show ?thesis by (simp add: resolve_jobref_def)
next
  case False
  with assms have "job_from_pid t n = j" "j \<noteq> 0"
    by (auto simp: resolve_jobref_def split: if_splits)
  then show ?thesis by (rule job_from_pid_exists)
qed

lemma set_fg_state: "job_exists t j \<Longrightarrow> job_get_state (job_set_state t j FG) j = Some FG"
  by (auto simp: job_exists_def job_get_state_def get_job_set_state)

lemma eval_begin_fg:
  assumes "parse_result = PARSELINE_FG \<or> parse_result = PARSELINE_BG"
    and "builtin tok = BUILTIN_FG" and "argv tok = c # a # rest"
    and "atoi (jobref_num a) = n" and "n \<noteq> 0"
    and "resolve_jobref (jobs s) n = Some (j, p)"
  shows "eval_begin sys cmdline parse_result tok s =
           Wait \<lparr>w_note = [], w_suspend = mask s, w_close = [], w_restore = mask s\<rparr>
             (s\<lparr>jobs := job_set_state (jobs s) j FG,
                sent := sent s @ [(p, SIGCONT)],
                mask := mask s \<union> sigchld\<rparr>)"
  using assms(1,2,4,5,6) second_argument[OF assms(3)]
  by (auto simp: eval_begin_def builtincmd_begin_def builtin_fg_def Let_def
      sigprocmask_block_def sigprocmask_setmask_def sio_printf_def killpg_def resolve_jobref_def
      job_get_pid_set_state split: if_splits)

lemma eval_begin_launch_fg:
  assumes "builtin tok = BUILTIN_NONE"
    and "open_infile sys tok (s\<lparr>mask := mask s \<union> mask_one\<rparr>) = Inr (fdin, s2)"
    and "open_outfile sys tok s2 = Inr (fdout, s3)"
    and "fork_ret sys \<noteq> 0"
  shows "eval_begin sys cmdline PARSELINE_FG tok s =
           Wait \<lparr>w_note = [(1, ''job is stopped'')], w_suspend = {},
                  w_close = (if infile tok \<noteq> None then [fdin] else [])
                            @ (if outfile tok \<noteq> None then [fdout] else []),
                  w_restore = {}\<rparr>
             (s3\<lparr>jobs := snd (add_job (jobs s) (fork_ret sys) FG cmdline),
                 mask := mask s \<union> sigchld\<rparr>)"
proof -
  have j: "jobs s3 = jobs s"
    using jobs_open_infile(2)[OF assms(2)] jobs_open_outfile(2)[OF assms(3)] by simp
  show ?thesis
    using assms j
    by (simp add: eval_begin_def builtincmd_begin_def launch_def parent_def Let_def
        sigprocmask_block_def sigprocmask_setmask_def split_def)
qed


lemma find_snoc:
  "find P (xs @ [y]) = (case find P xs of None \<Rightarrow> (if P y then Some y else None) | Some x \<Rightarrow> Some x)"
  by (induction xs) auto

lemma added_fg_state:
  assumes "quiet t" and "length (recs t) < capacity t"
  shows "job_get_state (snd (add_job t p FG cmd)) (nextjid t) = Some FG"
proof -
  from assms(1) have "\<forall>r\<in>set (recs t). job_id r \<noteq> nextjid t"
    by (auto simp: quiet_def wf_table_def list_all_iff)
  then have "find (\<lambda>r. job_id r = nextjid t) (recs t) = None"
    by (simp add: find_None_iff)
  with assms(2) show ?thesis
    by (simp add: add_job_def job_get_state_def get_job_def find_snoc)
qed

lemma eval_begin_sleep:
  "eval_begin no_files ''/bin/sleep 5'' PARSELINE_FG (plain_tokens [''/bin/sleep'', ''5''])
     fresh_shell = Wait eval_frame sleep_running"
  by (simp add: eval_defs table_defs no_files_def fresh_shell_def plain_tokens_def
      sleep_running_def eval_frame_def Let_def)

section \<open>A redirection target that cannot be opened\<close>

text \<open>
  When the input file cannot be opened, or the output file cannot and no input file was
  asked for, \<^verbatim>\<open>eval\<close> returns and the state differs by the message alone. When the
  input file has been opened and the output file cannot be, the descriptor of the input
  file is open in the state \<^verbatim>\<open>eval\<close> returns.
\<close>

lemma infile_failure:
  assumes "parse_result = PARSELINE_FG \<or> parse_result = PARSELINE_BG"
    and "builtin tok = BUILTIN_NONE"
    and "infile tok = Some f" and "open_rd sys f = Inl e"
  shows "eval sys evs cmdline parse_result tok s =
           Return (s\<lparr>out := out s @ [(1, file_error f e)]\<rparr>)"
  using assms
  by (auto simp: eval_def eval_begin_def builtincmd_begin_def launch_def complete_def
      open_infile_def sigprocmask_block_def sigprocmask_setmask_def sio_printf_def)

lemma outfile_failure:
  assumes "parse_result = PARSELINE_FG \<or> parse_result = PARSELINE_BG"
    and "builtin tok = BUILTIN_NONE"
    and "infile tok = None"
    and "outfile tok = Some f" and "open_wr sys f = Inl e"
  shows "eval sys evs cmdline parse_result tok s =
           Return (s\<lparr>out := out s @ [(1, file_error f e)]\<rparr>)"
  using assms
  by (auto simp: eval_def eval_begin_def builtincmd_begin_def launch_def complete_def
      open_infile_def open_outfile_def sigprocmask_block_def sigprocmask_setmask_def
      sio_printf_def)

lemma outfile_failure_after_infile:
  assumes "parse_result = PARSELINE_FG \<or> parse_result = PARSELINE_BG"
    and "builtin tok = BUILTIN_NONE"
    and "infile tok = Some g" and "open_rd sys g = Inr fdin"
    and "outfile tok = Some f" and "open_wr sys f = Inl e"
  shows "eval sys evs cmdline parse_result tok s =
           Return (s\<lparr>out := out s @ [(1, file_error f e)],
                     open_fds := open_fds s @ [fdin]\<rparr>)"
  using assms
  by (auto simp: eval_def eval_begin_def builtincmd_begin_def launch_def complete_def
      open_infile_def open_outfile_def sigprocmask_block_def sigprocmask_setmask_def
      sio_printf_def open_fd_def)

section \<open>The signal mask when \<^verbatim>\<open>eval\<close> returns\<close>

text \<open>
  The handlers and the wait loop leave the mask as it was. \<^verbatim>\<open>builtincmd\<close> returns with
  the mask it was called with. \<^verbatim>\<open>eval\<close> returns with the mask it was called with on
  every path but the one of a foreground command that is not a builtin, where it
  returns with the empty mask.
\<close>

lemma mask_handler: "mask (handler e s) = mask s"
  by (cases e)
    (simp_all add: sigchld_handler_eq mask_reap_loop sigint_handler_def sigtstp_handler_def
      sigprocmask_block_def sigprocmask_setmask_def Let_def)

lemma mask_wait_fg: "wait_fg nt m evs s = Some s' \<Longrightarrow> mask s' = mask s"
proof (induction evs arbitrary: s)
  case Nil
  show ?case
  proof (cases "0 < fg_job (jobs s)")
    case False
    with Nil show ?thesis by simp
  next
    case True
    with Nil show ?thesis
      by (cases "job_get_state (jobs s) (fg_job (jobs s)) = Some ST") auto
  qed
next
  case (Cons e es)
  have d: "mask (deliver m e s) = mask s"
    by (simp add: deliver_def sigsuspend_def)
  have step: "wait_fg nt m (e # es) s = Some s'"
    by (rule Cons.prems)
  show ?case
  proof (cases "0 < fg_job (jobs s)")
    case False
    with step have "s' = s" unfolding wait_fg_step by simp
    then show ?thesis by simp
  next
    case True
    show ?thesis
    proof (cases "job_get_state (jobs s) (fg_job (jobs s)) = Some ST")
      case st: True
      with True step have "s' = s\<lparr>out := out s @ nt\<rparr>" unfolding wait_fg_step by simp
      then show ?thesis by simp
    next
      case False
      with True step have "wait_fg nt m es (deliver m e s) = Some s'"
        unfolding wait_fg_step by simp
      then have "mask s' = mask (deliver m e s)" by (rule Cons.IH)
      with d show ?thesis by simp
    qed
  qed
qed

lemma mask_close_fds: "mask (fold close_fd fds s) = mask s"
  by (induction fds arbitrary: s) (simp_all add: close_fd_def)

lemma mask_finish: "mask (finish k s) = w_restore k"
  by (simp add: finish_def sigprocmask_setmask_def)

lemma builtin_jobs_mask:
  "builtin_jobs sys tok s = Done (Return s') \<Longrightarrow> mask s' = mask s"
  "builtin_jobs sys tok s = Wait k s' \<Longrightarrow> w_restore k = mask s"
  by (auto simp: builtin_jobs_def Let_def sigprocmask_block_def sigprocmask_setmask_def
      sio_printf_def list_jobs_def open_fd_def close_fd_def split: option.splits sum.splits)

lemma builtin_bg_mask:
  "builtin_bg tok s = Done (Return s') \<Longrightarrow> mask s' = mask s"
  "builtin_bg tok s = Wait k s' \<Longrightarrow> w_restore k = mask s"
  by (auto simp: builtin_bg_def Let_def sigprocmask_block_def sigprocmask_setmask_def
      sio_printf_def killpg_def split: if_splits list.splits)

lemma builtin_fg_mask:
  "builtin_fg tok s = Done (Return s') \<Longrightarrow> mask s' = mask s"
  "builtin_fg tok s = Wait k s' \<Longrightarrow> w_restore k = mask s"
  by (auto simp: builtin_fg_def Let_def sigprocmask_block_def sigprocmask_setmask_def
      sio_printf_def killpg_def split: if_splits list.splits)

lemma builtincmd_begin_mask:
  "builtincmd_begin sys parse_result tok s = Done (Return s') \<Longrightarrow> mask s' = mask s"
  "builtincmd_begin sys parse_result tok s = Wait k s' \<Longrightarrow> w_restore k = mask s"
proof -
  show "mask s' = mask s" if r: "builtincmd_begin sys parse_result tok s = Done (Return s')"
  proof (cases "builtin tok")
    case BUILTIN_NONE
    with r show ?thesis by (simp add: builtincmd_begin_def)
  next
    case BUILTIN_QUIT
    with r show ?thesis by (simp add: builtincmd_begin_def)
  next
    case BUILTIN_JOBS
    with r have "builtin_jobs sys tok s = Done (Return s')" by (simp add: builtincmd_begin_def)
    then show ?thesis by (rule builtin_jobs_mask(1))
  next
    case BUILTIN_BG
    with r have "builtin_bg tok s = Done (Return s')" by (simp add: builtincmd_begin_def)
    then show ?thesis by (rule builtin_bg_mask(1))
  next
    case BUILTIN_FG
    with r have "builtin_fg tok s = Done (Return s')" by (simp add: builtincmd_begin_def)
    then show ?thesis by (rule builtin_fg_mask(1))
  qed
  show "w_restore k = mask s" if r: "builtincmd_begin sys parse_result tok s = Wait k s'"
  proof (cases "builtin tok")
    case BUILTIN_NONE
    with r show ?thesis by (simp add: builtincmd_begin_def)
  next
    case BUILTIN_QUIT
    with r show ?thesis by (simp add: builtincmd_begin_def)
  next
    case BUILTIN_JOBS
    with r have "builtin_jobs sys tok s = Wait k s'" by (simp add: builtincmd_begin_def)
    then show ?thesis by (rule builtin_jobs_mask(2))
  next
    case BUILTIN_BG
    with r have "builtin_bg tok s = Wait k s'" by (simp add: builtincmd_begin_def)
    then show ?thesis by (rule builtin_bg_mask(2))
  next
    case BUILTIN_FG
    with r have "builtin_fg tok s = Wait k s'" by (simp add: builtincmd_begin_def)
    then show ?thesis by (rule builtin_fg_mask(2))
  qed
qed

lemma mask_open_infile:
  "open_infile sys tok s = Inl s' \<Longrightarrow> mask s' = mask s"
  "open_infile sys tok s = Inr (fd, s') \<Longrightarrow> mask s' = mask s"
  by (auto simp: open_infile_def sio_printf_def open_fd_def split: option.splits sum.splits)

lemma mask_open_outfile:
  "open_outfile sys tok s = Inl s' \<Longrightarrow> mask s' = mask s"
  "open_outfile sys tok s = Inr (fd, s') \<Longrightarrow> mask s' = mask s"
  by (auto simp: open_outfile_def sio_printf_def open_fd_def split: option.splits sum.splits)

lemma parent_mask:
  "parent pid cmdline parse_result tok m fdin fdout s = Done (Return s') \<Longrightarrow> mask s' = m"
  "parent pid cmdline parse_result tok m fdin fdout s = Wait k s' \<Longrightarrow>
     parse_result = PARSELINE_FG \<and> w_restore k = {}"
  by (auto simp: parent_def Let_def sigprocmask_block_def sigprocmask_setmask_def
      sio_printf_def split_def split: parseline_return.splits)

lemma launch_mask:
  "launch sys cmdline parse_result tok s = Done (Return s') \<Longrightarrow> mask s' = mask s"
  "launch sys cmdline parse_result tok s = Wait k s' \<Longrightarrow>
     parse_result = PARSELINE_FG \<and> w_restore k = {}"
proof -
  let ?s1 = "s\<lparr>mask := mask s \<union> mask_one\<rparr>"
  show "mask s' = mask s" if r: "launch sys cmdline parse_result tok s = Done (Return s')"
  proof (cases "open_infile sys tok ?s1")
    case (Inl a)
    with r show ?thesis
      by (auto simp: launch_def sigprocmask_block_def sigprocmask_setmask_def)
  next
    case (Inr b)
    obtain fdin s2 where b: "b = (fdin, s2)" by (cases b)
    show ?thesis
    proof (cases "open_outfile sys tok s2")
      case (Inl a)
      with r Inr b show ?thesis
        by (auto simp: launch_def sigprocmask_block_def sigprocmask_setmask_def)
    next
      case (Inr c)
      obtain fdout s3 where c: "c = (fdout, s3)" by (cases c)
      from r \<open>open_infile sys tok ?s1 = Inr b\<close> b Inr c
      have "parent (fork_ret sys) cmdline parse_result tok (mask s) fdin fdout s3 = Done (Return s')"
        by (auto simp: launch_def sigprocmask_block_def child_no_return split: if_splits)
      then show ?thesis by (rule parent_mask(1))
    qed
  qed
  show "parse_result = PARSELINE_FG \<and> w_restore k = {}"
    if r: "launch sys cmdline parse_result tok s = Wait k s'"
  proof (cases "open_infile sys tok ?s1")
    case (Inl a)
    with r show ?thesis
      by (auto simp: launch_def sigprocmask_block_def)
  next
    case (Inr b)
    obtain fdin s2 where b: "b = (fdin, s2)" by (cases b)
    show ?thesis
    proof (cases "open_outfile sys tok s2")
      case (Inl a)
      with r Inr b show ?thesis
        by (auto simp: launch_def sigprocmask_block_def)
    next
      case (Inr c)
      obtain fdout s3 where c: "c = (fdout, s3)" by (cases c)
      from r \<open>open_infile sys tok ?s1 = Inr b\<close> b Inr c
      have "parent (fork_ret sys) cmdline parse_result tok (mask s) fdin fdout s3 = Wait k s'"
        by (auto simp: launch_def sigprocmask_block_def split: if_splits)
      then show ?thesis by (rule parent_mask(2))
    qed
  qed
qed

lemma eval_mask:
  assumes "eval sys evs cmdline parse_result tok s = Return s'"
  shows "mask s' = mask s
     \<or> (builtin tok = BUILTIN_NONE \<and> parse_result = PARSELINE_FG \<and> mask s' = {})"
proof (cases "eval_begin sys cmdline parse_result tok s")
  case (Done r)
  with assms have d: "eval_begin sys cmdline parse_result tok s = Done (Return s')"
    by (simp add: eval_def complete_def)
  show ?thesis
  proof (cases "builtincmd_begin sys parse_result tok s")
    case (Wait k1 s1)
    with d show ?thesis by (auto simp: eval_begin_def split: if_splits)
  next
    case (Done o1)
    show ?thesis
    proof (cases o1)
      case (Return s1)
      with Done have "mask s1 = mask s" using builtincmd_begin_mask(1) by blast
      with d Done Return launch_mask(1)[of sys cmdline parse_result tok s1 s'] show ?thesis
        by (auto simp: eval_begin_def split: if_splits)
    qed (use d Done in \<open>auto simp: eval_begin_def split: if_splits\<close>)
  qed
next
  case (Wait k s1)
  with assms obtain s2 where w: "wait_fg (w_note k) (w_suspend k) evs s1 = Some s2"
    and f: "s' = finish k s2"
    by (auto simp: eval_def complete_def run_wait_def split: option.splits)
  then have m: "mask s' = w_restore k" by (simp add: mask_finish)
  show ?thesis
  proof (cases "builtincmd_begin sys parse_result tok s")
    case (Wait k1 s3)
    with \<open>eval_begin sys cmdline parse_result tok s = Wait k s1\<close> have "k1 = k"
      by (auto simp: eval_begin_def split: if_splits)
    with Wait m show ?thesis using builtincmd_begin_mask(2) by blast
  next
    case (Done o1)
    show ?thesis
    proof (cases o1)
      case (Return s3)
      with Done \<open>eval_begin sys cmdline parse_result tok s = Wait k s1\<close>
      have "builtin tok = BUILTIN_NONE" "launch sys cmdline parse_result tok s3 = Wait k s1"
        by (auto simp: eval_begin_def split: if_splits)
      with m launch_mask(2) show ?thesis by blast
    qed (use Done \<open>eval_begin sys cmdline parse_result tok s = Wait k s1\<close> in
          \<open>auto simp: eval_begin_def split: if_splits\<close>)
  qed
qed

section \<open>The claims\<close>

text \<open>
  C1 (as amended). For \<^verbatim>\<open>bg\<close> and \<^verbatim>\<open>fg\<close> with an argument that \<^verbatim>\<open>atoi\<close> reads as the
  number \<open>n \<noteq> 0\<close> once a leading marker \<^verbatim>\<open>%\<close> is dropped, the marker decides nothing:
  if a job has the id \<open>n\<close> the builtin acts on that job, otherwise on the job whose
  process id is \<open>n\<close> (\<open>resolve_jobref\<close>). \<^verbatim>\<open>bg\<close> prints the announcement of that job, sets
  it to Background and continues its process group; \<^verbatim>\<open>fg\<close> sets it to Foreground,
  continues its process group and waits. When job 1 is in the table, process ids are
  not repeated in the table and the process id \<open>q\<close> of job 1 is not itself the id of a
  job, \<^verbatim>\<open>bg %1\<close> and \<^verbatim>\<open>bg q\<close> end in the same state with the same announcement.
\<close>

theorem jobref_resolution:
  "(argv tok = c # a # rest \<and> atoi (jobref_num a) = n \<and> n \<noteq> 0
      \<and> resolve_jobref (jobs s) n = Some (j, p) \<longrightarrow>
      (builtin tok = BUILTIN_BG \<longrightarrow>
         builtincmd sys evs parse_result tok s =
           Return (s\<lparr>out := out s @ [(1, announce j p (job_get_cmdline (jobs s) j))],
                     jobs := job_set_state (jobs s) j BG,
                     sent := sent s @ [(p, SIGCONT)]\<rparr>))
      \<and> (builtin tok = BUILTIN_FG \<longrightarrow>
         builtincmd sys evs parse_result tok s =
           run_wait \<lparr>w_note = [], w_suspend = mask s, w_close = [], w_restore = mask s\<rparr> evs
             (s\<lparr>jobs := job_set_state (jobs s) j FG,
                sent := sent s @ [(p, SIGCONT)],
                mask := mask s \<union> sigchld\<rparr>)))
   \<and> (distinct (map process_id (recs (jobs s))) \<and> job_exists (jobs s) 1
        \<and> job_get_pid (jobs s) 1 = q \<and> q \<noteq> 0 \<and> \<not> job_exists (jobs s) q
        \<and> builtin tok1 = BUILTIN_BG \<and> argv tok1 = c1 # a1 # rest1 \<and> atoi (jobref_num a1) = 1
        \<and> builtin tok2 = BUILTIN_BG \<and> argv tok2 = c2 # a2 # rest2 \<and> atoi (jobref_num a2) = q
      \<longrightarrow>
        builtincmd sys evs parse_result tok1 s = builtincmd sys evs parse_result tok2 s
        \<and> builtincmd sys evs parse_result tok2 s =
            Return (s\<lparr>out := out s @ [(1, announce 1 q (job_get_cmdline (jobs s) 1))],
                      jobs := job_set_state (jobs s) 1 BG,
                      sent := sent s @ [(q, SIGCONT)]\<rparr>))"
proof (intro conjI impI; (elim conjE)?)
  assume "argv tok = c # a # rest" "atoi (jobref_num a) = n" "n \<noteq> 0"
    "resolve_jobref (jobs s) n = Some (j, p)" "builtin tok = BUILTIN_BG"
  then show "builtincmd sys evs parse_result tok s =
           Return (s\<lparr>out := out s @ [(1, announce j p (job_get_cmdline (jobs s) j))],
                     jobs := job_set_state (jobs s) j BG,
                     sent := sent s @ [(p, SIGCONT)]\<rparr>)"
    using resolved_bg by blast
next
  assume "argv tok = c # a # rest" "atoi (jobref_num a) = n" "n \<noteq> 0"
    "resolve_jobref (jobs s) n = Some (j, p)" "builtin tok = BUILTIN_FG"
  then show "builtincmd sys evs parse_result tok s =
           run_wait \<lparr>w_note = [], w_suspend = mask s, w_close = [], w_restore = mask s\<rparr> evs
             (s\<lparr>jobs := job_set_state (jobs s) j FG,
                sent := sent s @ [(p, SIGCONT)],
                mask := mask s \<union> sigchld\<rparr>)"
    using resolved_fg by blast
next
  assume d: "distinct (map process_id (recs (jobs s)))" and e: "job_exists (jobs s) 1"
    and q: "job_get_pid (jobs s) 1 = q" "q \<noteq> 0" and nq: "\<not> job_exists (jobs s) q"
    and t1: "builtin tok1 = BUILTIN_BG" "argv tok1 = c1 # a1 # rest1" "atoi (jobref_num a1) = 1"
    and t2: "builtin tok2 = BUILTIN_BG" "argv tok2 = c2 # a2 # rest2" "atoi (jobref_num a2) = q"
  have r1: "resolve_jobref (jobs s) 1 = Some (1, q)"
    using e q by (simp add: resolve_jobref_def)
  have "job_from_pid (jobs s) q = 1"
    using job_from_pid_of_job[OF d e] q by simp
  with nq have r2: "resolve_jobref (jobs s) q = Some (1, q)"
    by (simp add: resolve_jobref_def)
  have b1: "builtincmd sys evs parse_result tok1 s =
            Return (s\<lparr>out := out s @ [(1, announce 1 q (job_get_cmdline (jobs s) 1))],
                      jobs := job_set_state (jobs s) 1 BG,
                      sent := sent s @ [(q, SIGCONT)]\<rparr>)"
    using resolved_bg[OF t1(1,2,3) _ r1] by simp
  have b2: "builtincmd sys evs parse_result tok2 s =
            Return (s\<lparr>out := out s @ [(1, announce 1 q (job_get_cmdline (jobs s) 1))],
                      jobs := job_set_state (jobs s) 1 BG,
                      sent := sent s @ [(q, SIGCONT)]\<rparr>)"
    using resolved_bg[OF t2(1,2,3) q(2) r2] by simp
  from b1 b2 show "builtincmd sys evs parse_result tok1 s = builtincmd sys evs parse_result tok2 s"
    by simp
  from b2 show "builtincmd sys evs parse_result tok2 s =
            Return (s\<lparr>out := out s @ [(1, announce 1 q (job_get_cmdline (jobs s) 1))],
                      jobs := job_set_state (jobs s) 1 BG,
                      sent := sent s @ [(q, SIGCONT)]\<rparr>)" .
qed

text \<open>
  The claim as it was stated fails: \<^verbatim>\<open>bg %4242\<close> acts on job 1, whose process id is 4242,
  although no job has the id 4242; and with the jobs 1 (process 2) and 2 (process 7),
  \<^verbatim>\<open>bg 2\<close> acts on job 2 and not on the job of process 2, so that \<^verbatim>\<open>bg %1\<close> and
  \<^verbatim>\<open>bg 2\<close> differ.
\<close>

theorem jobref_resolution_counterexample:
  "\<not> job_exists (jobs one_stopped_job) 4242
   \<and> builtincmd no_files [] PARSELINE_FG (bg_tokens ''%4242'') one_stopped_job =
       Return (one_stopped_job
         \<lparr>jobs := \<lparr>recs = [\<lparr>job_id = 1, process_id = 4242, state = BG,
                             command_text = ''/bin/sleep 60''\<rparr>],
                   nextjid = 2, capacity = 16\<rparr>,
          out := [(1, ''[1] (4242) /bin/sleep 60\<newline>'')],
          sent := [(4242, SIGCONT)]\<rparr>)
   \<and> job_get_pid (jobs small_pids) 1 = 2
   \<and> builtincmd no_files [] PARSELINE_FG (bg_tokens ''2'') small_pids =
       Return (small_pids
         \<lparr>jobs := \<lparr>recs = [\<lparr>job_id = 1, process_id = 2, state = ST, command_text = ''/bin/a''\<rparr>,
                            \<lparr>job_id = 2, process_id = 7, state = BG, command_text = ''/bin/b''\<rparr>],
                   nextjid = 3, capacity = 16\<rparr>,
          out := [(1, ''[2] (7) /bin/b\<newline>'')],
          sent := [(7, SIGCONT)]\<rparr>)
   \<and> builtincmd no_files [] PARSELINE_FG (bg_tokens ''%1'') small_pids \<noteq>
     builtincmd no_files [] PARSELINE_FG (bg_tokens ''2'') small_pids"
  by (simp add: eval_defs table_defs one_stopped_job_def small_pids_def bg_tokens_def
      no_files_def atoi_defs isspace_def isdigit_def digit_val_def dec_def dec_nat.simps Let_def)

theorem jobref_resolution_witness:
  "builtincmd no_files [] PARSELINE_FG (bg_tokens ''%1'') one_stopped_job =
     builtincmd no_files [] PARSELINE_FG (bg_tokens ''4242'') one_stopped_job
   \<and> builtincmd no_files [] PARSELINE_FG (bg_tokens ''4242'') one_stopped_job =
       Return (one_stopped_job
         \<lparr>jobs := \<lparr>recs = [\<lparr>job_id = 1, process_id = 4242, state = BG,
                             command_text = ''/bin/sleep 60''\<rparr>],
                   nextjid = 2, capacity = 16\<rparr>,
          out := [(1, ''[1] (4242) /bin/sleep 60\<newline>'')],
          sent := [(4242, SIGCONT)]\<rparr>)
   \<and> builtincmd no_files [] PARSELINE_FG (bg_tokens ''4294967297'') one_stopped_job =
       Return (one_stopped_job
         \<lparr>jobs := \<lparr>recs = [\<lparr>job_id = 1, process_id = 4242, state = BG,
                             command_text = ''/bin/sleep 60''\<rparr>],
                   nextjid = 2, capacity = 16\<rparr>,
          out := [(1, ''[1] (4242) /bin/sleep 60\<newline>'')],
          sent := [(4242, SIGCONT)]\<rparr>)"
proof -
  have a1: "atoi (jobref_num ''%1'') = 1" and a2: "atoi (jobref_num ''4242'') = 4242"
    and a3: "atoi (jobref_num ''4294967297'') = 1"
    by (simp_all add: jobref_num_def atoi_defs isspace_def isdigit_def digit_val_def)
  have t: "distinct (map process_id (recs (jobs one_stopped_job)))"
    "job_exists (jobs one_stopped_job) 1" "job_get_pid (jobs one_stopped_job) 1 = 4242"
    "\<not> job_exists (jobs one_stopped_job) 4242"
    "resolve_jobref (jobs one_stopped_job) 4242 = Some (1, 4242)"
    "resolve_jobref (jobs one_stopped_job) 1 = Some (1, 4242)"
    by (simp_all add: one_stopped_job_def table_defs resolve_jobref_def)
  show ?thesis
    using jobref_resolution[where s = one_stopped_job
        and tok = "bg_tokens ''4294967297''" and c = "''bg''" and a = "''4294967297''"
        and rest = "[]" and n = 1 and j = 1 and p = 4242
        and sys = no_files and evs = "[]" and parse_result = PARSELINE_FG]
      a3
      jobref_resolution[where s = one_stopped_job and q = 4242
        and tok = "bg_tokens ''4242''" and c = "''bg''" and a = "''4242''" and rest = "[]"
        and n = 4242 and j = 1 and p = 4242
        and ?tok1.0 = "bg_tokens ''%1''" and ?c1.0 = "''bg''" and ?a1.0 = "''%1''" and ?rest1.0 = "[]"
        and ?tok2.0 = "bg_tokens ''4242''" and ?c2.0 = "''bg''" and ?a2.0 = "''4242''" and ?rest2.0 = "[]"
        and sys = no_files and evs = "[]" and parse_result = PARSELINE_FG]
      a1 a2 t
    by (simp add: bg_tokens_def one_stopped_job_def table_defs announce_def dec_def dec_nat.simps)
qed

text \<open>
  C2. Let no job be in the foreground when \<^verbatim>\<open>eval\<close> is called (as at every prompt, see
  \<open>reach_invariant\<close>). First: whenever the call enters a wait loop with a job \<open>j\<close> in the
  foreground, \<open>j\<close> is Foreground at the start of the loop, and the call returns exactly
  at the first state, among those the shell goes through as the signals arrive, in
  which \<open>j\<close> is no longer in the table or is Stopped; if there is no such state it
  never returns. It returns with the table of that state: a Stopped job is still in it.
  Second: \<^verbatim>\<open>fg\<close> with a reference that resolves to the job \<open>i\<close> does enter the loop, with
  \<open>i\<close> set to Foreground and its process group continued, and returns in that way.
  Third: a foreground command that is not a builtin, whose redirection targets open,
  whose process is created and for which the table has room, does enter the loop with
  its new job in the foreground, and returns in that way.
\<close>

theorem foreground_wait:
  assumes "quiet (jobs s0)"
  shows
    "(eval_begin sys cmdline parse_result tok s0 = Wait k s \<and> fg_job (jobs s) = j \<and> 0 < j \<longrightarrow>
        job_get_state (jobs s) j = Some FG
        \<and> eval sys evs cmdline parse_result tok s0 =
            (case find (gone_or_stopped j) (trace (w_suspend k) evs s) of
               None \<Rightarrow> Suspended
             | Some s' \<Rightarrow> Return (finish k s'))
        \<and> (\<forall>s'. jobs (finish k s') = jobs s'))
     \<and> ((parse_result = PARSELINE_FG \<or> parse_result = PARSELINE_BG)
        \<and> builtin tok = BUILTIN_FG \<and> argv tok = c # a # rest
        \<and> atoi (jobref_num a) = n \<and> n \<noteq> 0 \<and> resolve_jobref (jobs s0) n = Some (i, p) \<longrightarrow>
        job_get_state (job_set_state (jobs s0) i FG) i = Some FG
        \<and> eval sys evs cmdline parse_result tok s0 =
            (case find (gone_or_stopped i)
                    (trace (mask s0) evs
                       (s0\<lparr>jobs := job_set_state (jobs s0) i FG,
                           sent := sent s0 @ [(p, SIGCONT)],
                           mask := mask s0 \<union> sigchld\<rparr>)) of
               None \<Rightarrow> Suspended
             | Some s' \<Rightarrow> Return (s'\<lparr>mask := mask s0\<rparr>)))
     \<and> (builtin tok = BUILTIN_NONE
        \<and> open_infile sys tok (s0\<lparr>mask := mask s0 \<union> mask_one\<rparr>) = Inr (fdin, s2)
        \<and> open_outfile sys tok s2 = Inr (fdout, s3)
        \<and> fork_ret sys \<noteq> 0 \<and> length (recs (jobs s0)) < capacity (jobs s0) \<longrightarrow>
        job_get_state (snd (add_job (jobs s0) (fork_ret sys) FG cmdline)) (nextjid (jobs s0))
          = Some FG
        \<and> eval sys evs cmdline PARSELINE_FG tok s0 =
            (case find (gone_or_stopped (nextjid (jobs s0)))
                    (trace {} evs
                       (s3\<lparr>jobs := snd (add_job (jobs s0) (fork_ret sys) FG cmdline),
                           mask := mask s0 \<union> sigchld\<rparr>)) of
               None \<Rightarrow> Suspended
             | Some s' \<Rightarrow>
                 Return (finish
                           \<lparr>w_note = [(1, ''job is stopped'')], w_suspend = {},
                              w_close = (if infile tok \<noteq> None then [fdin] else [])
                                        @ (if outfile tok \<noteq> None then [fdout] else []),
                              w_restore = {}\<rparr> s')))"
proof (intro conjI impI; (elim conjE)?)
  assume b: "eval_begin sys cmdline parse_result tok s0 = Wait k s"
    and f: "fg_job (jobs s) = j" "0 < j"
  from assms b obtain i where w: "waited_for i (jobs s)"
    using eval_begin_quiet(2) by blast
  with f have ij: "i = j" and st: "job_get_state (jobs s) j = Some FG"
    using waited_fg_job[OF w] by (auto split: if_splits)
  from w ij have "wait_fg (w_note k) (w_suspend k) evs s =
      find (gone_or_stopped j) (trace (w_suspend k) evs s)"
    using wait_fg_first by blast
  with b show "eval sys evs cmdline parse_result tok s0 =
        (case find (gone_or_stopped j) (trace (w_suspend k) evs s) of
           None \<Rightarrow> Suspended
         | Some s' \<Rightarrow> Return (finish k s'))"
    by (simp add: eval_def complete_def run_wait_def)
  from st show "job_get_state (jobs s) j = Some FG" .
  show "\<forall>s'. jobs (finish k s') = jobs s'" by (simp add: jobs_finish)
next
  assume pr: "parse_result = PARSELINE_FG \<or> parse_result = PARSELINE_BG"
    and t: "builtin tok = BUILTIN_FG" "argv tok = c # a # rest"
    and n: "atoi (jobref_num a) = n" "n \<noteq> 0"
    and r: "resolve_jobref (jobs s0) n = Some (i, p)"
  let ?s1 = "s0\<lparr>jobs := job_set_state (jobs s0) i FG,
                 sent := sent s0 @ [(p, SIGCONT)],
                 mask := mask s0 \<union> sigchld\<rparr>"
  from r have "job_exists (jobs s0) i" by (rule resolved_exists)
  then show "job_get_state (job_set_state (jobs s0) i FG) i = Some FG"
    by (rule set_fg_state)
  have b: "eval_begin sys cmdline parse_result tok s0 =
           Wait \<lparr>w_note = [], w_suspend = mask s0, w_close = [], w_restore = mask s0\<rparr> ?s1"
    using pr t n r by (rule eval_begin_fg)
  have "waited_for i (jobs ?s1)"
    using assms by (simp add: waited_set_fg)
  then have "wait_fg [] (mask s0) evs ?s1 = find (gone_or_stopped i) (trace (mask s0) evs ?s1)"
    by (rule wait_fg_first)
  with b show "eval sys evs cmdline parse_result tok s0 =
        (case find (gone_or_stopped i) (trace (mask s0) evs ?s1) of
           None \<Rightarrow> Suspended
         | Some s' \<Rightarrow> Return (s'\<lparr>mask := mask s0\<rparr>))"
    by (simp add: eval_def complete_def run_wait_def finish_def sigprocmask_setmask_def
        split: option.splits)
next
  assume t: "builtin tok = BUILTIN_NONE"
    and i: "open_infile sys tok (s0\<lparr>mask := mask s0 \<union> mask_one\<rparr>) = Inr (fdin, s2)"
    and o: "open_outfile sys tok s2 = Inr (fdout, s3)"
    and f: "fork_ret sys \<noteq> 0" and c: "length (recs (jobs s0)) < capacity (jobs s0)"
  let ?t = "snd (add_job (jobs s0) (fork_ret sys) FG cmdline)"
  let ?s1 = "s3\<lparr>jobs := ?t, mask := mask s0 \<union> sigchld\<rparr>"
  let ?k = "\<lparr>w_note = [(1, ''job is stopped'')], w_suspend = {},
             w_close = (if infile tok \<noteq> None then [fdin] else [])
                       @ (if outfile tok \<noteq> None then [fdout] else []),
             w_restore = {}\<rparr>"
  from assms c show "job_get_state ?t (nextjid (jobs s0)) = Some FG"
    by (rule added_fg_state)
  have b: "eval_begin sys cmdline PARSELINE_FG tok s0 = Wait ?k ?s1"
    using t i o f by (rule eval_begin_launch_fg)
  have "waited_for (nextjid (jobs s0)) (jobs ?s1)"
    using assms by (simp add: waited_add_fg)
  then have w: "wait_fg (w_note ?k) (w_suspend ?k) evs ?s1 =
      find (gone_or_stopped (nextjid (jobs s0))) (trace {} evs ?s1)"
    using wait_fg_first[of "nextjid (jobs s0)" ?s1 "[(1, ''job is stopped'')]" "{}" evs]
    by (simp only: wait_frame.select_convs)
  have "eval sys evs cmdline PARSELINE_FG tok s0 = run_wait ?k evs ?s1"
    unfolding eval_def b complete_def by (simp only: phase.case)
  then show "eval sys evs cmdline PARSELINE_FG tok s0 =
        (case find (gone_or_stopped (nextjid (jobs s0))) (trace {} evs ?s1) of
           None \<Rightarrow> Suspended
         | Some s' \<Rightarrow> Return (finish ?k s'))"
    unfolding run_wait_def w .
qed

theorem foreground_wait_witness:
  "eval no_files [Tstp, Chld [(100, WStopped 20)], Chld [(100, WExited 0)]] ''/bin/sleep 5''
       PARSELINE_FG (plain_tokens [''/bin/sleep'', ''5'']) fresh_shell =
     Return (fresh_shell
       \<lparr>jobs := \<lparr>recs = [\<lparr>job_id = 1, process_id = 100, state = ST,
                           command_text = ''/bin/sleep 5''\<rparr>],
                 nextjid = 2, capacity = 16\<rparr>,
        out := [(1, ''Job [1] (100) stopped by signal 20\<newline>'')],
        sent := [(100, SIGTSTP)]\<rparr>)
   \<and> eval no_files [Tstp] ''/bin/sleep 5''
       PARSELINE_FG (plain_tokens [''/bin/sleep'', ''5'']) fresh_shell = Suspended
   \<and> eval no_files [Intr, Chld [(4242, WSignaled 2)]] ''fg %1''
       PARSELINE_FG (fg_tokens ''%1'') one_stopped_job =
     Return (one_stopped_job
       \<lparr>jobs := \<lparr>recs = [], nextjid = 1, capacity = 16\<rparr>,
        out := [(1, ''Job [1] (4242) terminated by signal 2\<newline>'')],
        sent := [(4242, SIGCONT), (4242, SIGINT)]\<rparr>)
   \<and> eval no_files [Chld [(4242, WStopped 20)]] ''fg %1''
       PARSELINE_FG (fg_tokens ''%1'') one_stopped_job =
     Return (one_stopped_job
       \<lparr>out := [(1, ''Job [1] (4242) stopped by signal 20\<newline>'')],
        sent := [(4242, SIGCONT)]\<rparr>)
   \<and> eval no_files [] ''fg %1'' PARSELINE_FG (fg_tokens ''%1'') one_stopped_job = Suspended"
proof -
  have q: "quiet (jobs fresh_shell)"
    by (simp add: fresh_shell_def quiet_init)
  have q1: "quiet (jobs one_stopped_job)"
    by (simp add: one_stopped_job_def quiet_def wf_table_def)
  have f: "fg_job (jobs sleep_running) = 1"
    by (simp add: sleep_running_def fg_job_def)
  have a: "atoi (jobref_num ''%1'') = 1"
    by (simp add: jobref_num_def atoi_defs isspace_def isdigit_def digit_val_def)
  have r: "resolve_jobref (jobs one_stopped_job) 1 = Some (1, 4242)"
    by (simp add: resolve_jobref_def one_stopped_job_def table_defs)
  have o: "open_infile no_files (plain_tokens [''/bin/sleep'', ''5''])
             (fresh_shell\<lparr>mask := mask fresh_shell \<union> mask_one\<rparr>) =
           Inr (0, fresh_shell\<lparr>mask := mask fresh_shell \<union> mask_one\<rparr>)"
    "open_outfile no_files (plain_tokens [''/bin/sleep'', ''5''])
             (fresh_shell\<lparr>mask := mask fresh_shell \<union> mask_one\<rparr>) =
           Inr (0, fresh_shell\<lparr>mask := mask fresh_shell \<union> mask_one\<rparr>)"
    by (simp_all add: open_infile_def open_outfile_def plain_tokens_def)
  have c: "length (recs (jobs fresh_shell)) < capacity (jobs fresh_shell)"
    "fork_ret no_files \<noteq> 0" "builtin (plain_tokens [''/bin/sleep'', ''5'']) = BUILTIN_NONE"
    "builtin (fg_tokens ''%1'') = BUILTIN_FG" "argv (fg_tokens ''%1'') = ''fg'' # ''%1'' # []"
    by (simp_all add: fresh_shell_def init_job_list_def no_files_def plain_tokens_def
        fg_tokens_def)
  note launch = foreground_wait[OF q, where sys = no_files and cmdline = "''/bin/sleep 5''"
      and parse_result = PARSELINE_FG and tok = "plain_tokens [''/bin/sleep'', ''5'']"
      and k = eval_frame and s = sleep_running and j = 1
      and fdin = 0 and fdout = 0
      and ?s2.0 = "fresh_shell\<lparr>mask := mask fresh_shell \<union> mask_one\<rparr>"
      and ?s3.0 = "fresh_shell\<lparr>mask := mask fresh_shell \<union> mask_one\<rparr>"]
  note resume = foreground_wait[OF q1, where sys = no_files and cmdline = "''fg %1''"
      and parse_result = PARSELINE_FG and tok = "fg_tokens ''%1''"
      and c = "''fg''" and a = "''%1''" and rest = "[]" and n = 1 and i = 1 and p = 4242]
  show ?thesis
    using launch[where evs = "[Tstp, Chld [(100, WStopped 20)], Chld [(100, WExited 0)]]"]
      launch[where evs = "[Tstp]"]
      resume[where evs = "[Intr, Chld [(4242, WSignaled 2)]]"]
      resume[where evs = "[Chld [(4242, WStopped 20)]]"]
      resume[where evs = "[]"]
      eval_begin_sleep f a r o c
    by (simp add: gone_or_stopped_def eval_frame_def sleep_running_def fresh_shell_def
        one_stopped_job_def handler_defs table_defs finish_def sigprocmask_block_def
        sigprocmask_setmask_def sio_printf_def killpg_def mask_one_def sigchld_def dec_def
        dec_nat.simps Let_def)
qed

text \<open>
  C3 (the code departs from the claim). A foreground command evaluated with the mask
  \<open>{SIGOTHER 10}\<close> at entry: \<^verbatim>\<open>eval\<close> returns with the empty mask, since line 307 installs
  \<^verbatim>\<open>prev\<close>, which is empty, and not the mask saved at entry.
\<close>

theorem eval_foreground_leaves_mask_empty:
  "eval in_parent [Chld [(200, WExited 0)]] ''/bin/true'' PARSELINE_FG
       (plain_tokens [''/bin/true'']) (fresh_shell\<lparr>mask := {SIGOTHER 10}\<rparr>) =
     Return (fresh_shell\<lparr>mask := {}\<rparr>)"
  by (simp add: eval_defs in_parent_def plain_tokens_def fresh_shell_def table_defs handler_defs
      Let_def)

text \<open>
  C4 (as amended). For a reaped child whose process id belongs to a job \<open>j\<close>, the handler
  goes on with the other reaped children after the body of its loop has run, no other job
  changes, and: if a signal terminated the child, the termination notice with
  the signal is printed and the record of \<open>j\<close> is removed; if a signal stopped it,
  the stop notice is printed and \<open>j\<close> stays in the table with the state Stopped; if it
  exited, nothing is printed and the record of \<open>j\<close> is removed.
\<close>

theorem reaped_job:
  assumes "0 < p" and "job_from_pid (jobs s) p = j" and "j \<noteq> 0"
  shows "sigchld_handler ((p, st) # rest) s = sigchld_handler rest (reap_one p st s)
    \<and> job_exists (jobs s) j
    \<and> (\<forall>i. i \<noteq> j \<longrightarrow> get_job (jobs (reap_one p st s)) i = get_job (jobs s) i)
    \<and> (case st of
          WSignaled n \<Rightarrow>
            out (reap_one p st s) = out s @ [(1, terminated_notice j p n)]
            \<and> \<not> job_exists (jobs (reap_one p st s)) j
        | WStopped n \<Rightarrow>
            out (reap_one p st s) = out s @ [(1, stopped_notice j p n)]
            \<and> job_exists (jobs (reap_one p st s)) j
            \<and> job_get_state (jobs (reap_one p st s)) j = Some ST
        | WExited c \<Rightarrow>
            out (reap_one p st s) = out s
            \<and> \<not> job_exists (jobs (reap_one p st s)) j)"
proof -
  have e: "job_exists (jobs s) j"
    using assms job_from_pid_exists by blast
  then obtain r where r: "get_job (jobs s) j = Some r"
    by (auto simp: job_exists_def)
  have 1: "sigchld_handler ((p, st) # rest) s = sigchld_handler rest (reap_one p st s)"
    using assms(1) by (simp add: sigchld_handler_eq)
  have 2: "\<forall>i. i \<noteq> j \<longrightarrow> get_job (jobs (reap_one p st s)) i = get_job (jobs s) i"
    using assms(2) by (cases st)
      (simp_all add: reap_one_def Let_def sio_printf_def get_job_delete get_job_set_state)
  have 3: "(case st of
          WSignaled n \<Rightarrow>
            out (reap_one p st s) = out s @ [(1, terminated_notice j p n)]
            \<and> \<not> job_exists (jobs (reap_one p st s)) j
        | WStopped n \<Rightarrow>
            out (reap_one p st s) = out s @ [(1, stopped_notice j p n)]
            \<and> job_exists (jobs (reap_one p st s)) j
            \<and> job_get_state (jobs (reap_one p st s)) j = Some ST
        | WExited c \<Rightarrow>
            out (reap_one p st s) = out s
            \<and> \<not> job_exists (jobs (reap_one p st s)) j)"
    using assms(2,3) r by (cases st)
      (simp_all add: reap_one_def Let_def sio_printf_def get_job_delete get_job_set_state
        job_exists_def job_get_state_def)
  from e 1 2 3 show ?thesis by blast
qed

text \<open>
  The claim as it was stated fails for a reaped child that has no job: launched in the
  background while the table is full, process 200 gets no record, and when a signal
  terminates it the handler prints no notice.
\<close>

theorem reaped_without_job_counterexample:
  "eval in_parent [] ''/bin/sleep 5 &'' PARSELINE_BG (plain_tokens [''/bin/sleep'', ''5''])
       full_table =
     Return (full_table\<lparr>out := [(1, ''[0] (200) /bin/sleep 5 &\<newline>'')]\<rparr>)
   \<and> job_from_pid (jobs full_table) 200 = 0
   \<and> sigchld_handler [(200, WSignaled 9)]
        (full_table\<lparr>out := [(1, ''[0] (200) /bin/sleep 5 &\<newline>'')]\<rparr>) =
      full_table\<lparr>out := [(1, ''[0] (200) /bin/sleep 5 &\<newline>'')]\<rparr>"
  by (simp add: eval_defs full_table_def in_parent_def plain_tokens_def handler_defs table_defs
      dec_def dec_nat.simps Let_def)

theorem reaped_job_witness:
  "sigchld_handler [(100, WStopped 20), (100, WSignaled 9)] full_table =
     full_table
       \<lparr>jobs := \<lparr>recs = [], nextjid = 1, capacity = 1\<rparr>,
        out := [(1, ''Job [1] (100) stopped by signal 20\<newline>''),
                (1, ''Job [1] (100) terminated by signal 9\<newline>'')]\<rparr>
   \<and> job_get_state (jobs (reap_one 100 (WStopped 20) full_table)) 1 = Some ST
   \<and> out (reap_one 100 (WExited 0) full_table) = []
   \<and> \<not> job_exists (jobs (reap_one 100 (WExited 0) full_table)) 1"
proof -
  have j: "job_from_pid (jobs full_table) 100 = 1"
    by (simp add: full_table_def job_from_pid_def)
  show ?thesis
    using reaped_job[of 100 full_table 1 "WStopped 20" "[(100, WSignaled 9)]"]
      reaped_job[of 100 full_table 1 "WExited 0" "[]"] j
    by (simp add: full_table_def handler_defs table_defs sigprocmask_block_def
        sigprocmask_setmask_def sio_printf_def mask_one_def dec_def dec_nat.simps Let_def)
qed

text \<open>
  C5 (the code departs from the claim). The input file opens as descriptor 3 and the
  output file cannot be opened: \<^verbatim>\<open>eval\<close> prints the message and returns, no job is
  created, and descriptor 3 is left open.
\<close>

theorem redirect_failure_leaves_descriptor_open:
  "eval in_parent [] ''/bin/cat < in.txt > /nodir/out'' PARSELINE_FG
       \<lparr>argv = [''/bin/cat''], infile = Some ''in.txt'', outfile = Some ''/nodir/out'',
         builtin = BUILTIN_NONE\<rparr>
       fresh_shell =
     Return (fresh_shell\<lparr>out := [(1, ''/nodir/out: No such file or directory\<newline>'')],
                         open_fds := [0, 1, 2, 3]\<rparr>)"
  by (simp add: eval_defs in_parent_def fresh_shell_def)

text \<open>
  C6 (the code departs from the claim). \<^verbatim>\<open>execve\<close> fails for a file that can be opened
  for reading: the child prints nothing and exits with status 0.
\<close>

theorem failed_exec_prints_nothing:
  "eval in_child [] ''./notes.txt'' PARSELINE_FG (plain_tokens [''./notes.txt'']) fresh_shell =
     Exit 0 (fresh_shell\<lparr>open_fds := [0, 1, 2, 3]\<rparr>)"
  by (simp add: eval_defs in_child_def plain_tokens_def fresh_shell_def)

text \<open>
  C7. In every state the shell reaches, at the prompt or in a wait loop, at most one
  record of the job table has the state Foreground. The registration after \<^verbatim>\<open>fork\<close>,
  \<^verbatim>\<open>bg\<close>, \<^verbatim>\<open>fg\<close> and the handlers are the steps of \<open>reach\<close>.
\<close>

theorem at_most_one_foreground:
  "reach md s \<Longrightarrow> length (filter (\<lambda>r. state r = FG) (recs (jobs s))) \<le> 1"
proof -
  assume "reach md s"
  then have i: "case md of AtPrompt \<Rightarrow> quiet (jobs s) | InWait k \<Rightarrow> \<exists>j. waited_for j (jobs s)"
    by (rule reach_invariant)
  have "count_fg (jobs s) \<le> 1"
  proof (cases md)
    case AtPrompt
    with i show ?thesis by (simp add: quiet_count)
  next
    case (InWait k)
    with i obtain j where "waited_for j (jobs s)" by auto
    then show ?thesis by (rule waited_count)
  qed
  then show ?thesis by (simp add: count_fg_def)
qed

theorem at_most_one_foreground_witness:
  "reach (InWait eval_frame) sleep_running
   \<and> length (filter (\<lambda>r. state r = FG) (recs (jobs sleep_running))) \<le> 1"
proof -
  have "reach AtPrompt fresh_shell"
    unfolding fresh_shell_def by (rule reach.start)
  then have r: "reach (InWait eval_frame) sleep_running"
    using eval_begin_sleep by (rule reach.enter)
  with at_most_one_foreground[OF r] show ?thesis by simp
qed




text \<open>
  C10. When the program cannot be executed, the child (if it gets as far as \<^verbatim>\<open>execve\<close>:
  the redirection targets open) exits with status 0. When the handler of the
  parent reaps a child of job \<open>j\<close> that exited with status 0, it prints nothing, removes
  the record of \<open>j\<close> and leaves the other jobs as they are.
\<close>

theorem failed_exec_reaped_silently:
  assumes "parse_result = PARSELINE_FG \<or> parse_result = PARSELINE_BG"
    and "builtin tok = BUILTIN_NONE" and "argv tok \<noteq> []"
    and "\<forall>f. infile tok = Some f \<longrightarrow> (\<exists>fd. open_rd sys f = Inr fd)"
    and "\<forall>f. outfile tok = Some f \<longrightarrow> (\<exists>fd. open_wr sys f = Inr fd)"
    and "fork_ret sys = 0" and "\<not> execve_ok sys (argv tok)"
    and "0 < p" and "job_from_pid (jobs t) p = j" and "j \<noteq> 0"
  shows "(\<exists>s'. eval sys evs cmdline parse_result tok s = Exit 0 s')
    \<and> out (sigchld_handler [(p, WExited 0)] t) = out t
    \<and> job_exists (jobs t) j
    \<and> \<not> job_exists (jobs (sigchld_handler [(p, WExited 0)] t)) j
    \<and> (\<forall>i. i \<noteq> j \<longrightarrow> get_job (jobs (sigchld_handler [(p, WExited 0)] t)) i = get_job (jobs t) i)"
proof -
  obtain s1 where "eval sys evs cmdline parse_result tok s = child sys tok (mask s) s1"
    using eval_child[OF assms(1,2,6,4,5)] by blast
  moreover obtain s2 where "child sys tok (mask s) s1 = Exit 0 s2"
    using child_exec_failure[OF assms(3,7)] by blast
  ultimately have 1: "\<exists>s'. eval sys evs cmdline parse_result tok s = Exit 0 s'" by simp
  have h: "sigchld_handler [(p, WExited 0)] t = reap_one p (WExited 0) t"
    using assms(8) by (simp add: sigchld_handler_eq)
  have e: "job_exists (jobs t) j"
    using assms(9,10) job_from_pid_exists by blast
  from assms(9) have 2: "out (reap_one p (WExited 0) t) = out t"
     "\<not> job_exists (jobs (reap_one p (WExited 0) t)) j"
     "\<forall>i. i \<noteq> j \<longrightarrow> get_job (jobs (reap_one p (WExited 0) t)) i = get_job (jobs t) i"
    by (simp_all add: reap_one_def Let_def get_job_delete job_exists_def)
  from 1 2 e h show ?thesis by simp
qed

theorem failed_exec_reaped_silently_witness:
  "eval in_child [] ''./missing'' PARSELINE_BG (plain_tokens [''./missing'']) full_table =
     Exit 0 (full_table\<lparr>out := [(1, ''./missing: No such file or directory\<newline>'')]\<rparr>)
   \<and> sigchld_handler [(100, WExited 0)] full_table =
       full_table\<lparr>jobs := \<lparr>recs = [], nextjid = 1, capacity = 1\<rparr>\<rparr>"
proof -
  have j: "job_from_pid (jobs full_table) 100 = 1"
    by (simp add: full_table_def job_from_pid_def)
  show ?thesis
    using failed_exec_reaped_silently[of PARSELINE_BG "plain_tokens [''./missing'']" in_child
        100 full_table 1 "[]" "''./missing''" full_table] j
    by (simp add: eval_defs full_table_def in_child_def plain_tokens_def handler_defs table_defs
        Let_def)
qed

end
